theory Spec2Isabelle
  imports Complex_Main
begin

section \<open>JavaScript values used by the flight engine\<close>

text \<open>
  The TypeScript sources use \<open>string | null\<close> fields throughout and test them for
  truthiness: \<open>null\<close>, \<open>undefined\<close> and the empty string are falsy, every other string
  is truthy. A number is falsy exactly when it is \<open>0\<close>.
\<close>

definition truthy :: "string option \<Rightarrow> bool" where
  "truthy s = (case s of None \<Rightarrow> False | Some t \<Rightarrow> t \<noteq> [])"

definition truthyNum :: "int option \<Rightarrow> bool" where
  "truthyNum n = (case n of None \<Rightarrow> False | Some k \<Rightarrow> k \<noteq> 0)"

text \<open>\<open>String(n)\<close> for an integer: decimal digits, with a leading minus sign.\<close>

definition digit_char :: "nat \<Rightarrow> char" where
  "digit_char n = ''0123456789'' ! n"

function show_nat :: "nat \<Rightarrow> string" where
  "show_nat n = (if n < 10 then [digit_char n] else show_nat (n div 10) @ [digit_char (n mod 10)])"
  by pat_completeness auto
termination
  by (relation "measure (\<lambda>n. n)") auto

declare show_nat.simps [simp del]

definition show_int :: "int \<Rightarrow> string" where
  "show_int i = (if i < 0 then CHR ''-'' # show_nat (nat (- i)) else show_nat (nat i))"

text \<open>
  \<open>Array.prototype.join\<close>: every element is converted with \<open>String\<close>, but \<open>null\<close> and
  \<open>undefined\<close> become the empty string; the separator goes between elements.
\<close>

datatype js_val = JStr string | JNum int | JNull

fun js_toString :: "js_val \<Rightarrow> string" where
  "js_toString (JStr s) = s"
| "js_toString (JNum n) = show_int n"
| "js_toString JNull = []"

fun js_join :: "string \<Rightarrow> js_val list \<Rightarrow> string" where
  "js_join sep [] = []"
| "js_join sep [x] = js_toString x"
| "js_join sep (x # y # ys) = js_toString x @ sep @ js_join sep (y # ys)"

text \<open>\<open>x ?? ''\<close> on a nullable string and on a nullable number.\<close>

definition strOrEmpty :: "string option \<Rightarrow> js_val" where
  "strOrEmpty s = (case s of None \<Rightarrow> JStr [] | Some t \<Rightarrow> JStr t)"

definition numOrEmpty :: "int option \<Rightarrow> js_val" where
  "numOrEmpty n = (case n of None \<Rightarrow> JStr [] | Some k \<Rightarrow> JNum k)"

text \<open>
  A \<open>Map\<close> filled by \<open>if (!m.has(k)) m.set(k, v)\<close> in a loop keeps, for every key, the
  value of its first occurrence, and iterates in insertion order. It is modelled as an
  association list that is only ever extended at the end.
\<close>

fun setIfAbsent :: "('a \<Rightarrow> 'k) \<Rightarrow> ('a \<Rightarrow> 'v) \<Rightarrow> 'a list \<Rightarrow> ('k \<times> 'v) list \<Rightarrow> ('k \<times> 'v) list" where
  "setIfAbsent key val [] m = m"
| "setIfAbsent key val (x # xs) m =
     setIfAbsent key val xs (if map_of m (key x) = None then m @ [(key x, val x)] else m)"

section \<open>Data model\<close>

record airport =
  airport_id :: int
  tz :: string
  lon :: real
  lat :: real

datatype seatType = Window | Aisle | Middle | Pilot | Copilot | Jumpseat | OtherSeat

datatype seatClass = Economy | EconomyPlus | Business | First | Private

datatype flightReason = Leisure | BusinessTrip | Crew | OtherReason

record createSeat =
  userId :: "string option"
  guestName :: "string option"
  seat :: "seatType option"
  seatNumber :: "string option"
  seatClass :: "seatClass option"

text \<open>\<open>Insertable<DB['seat']>\<close>: a seat together with the leg it is attached to.\<close>

record seatInsert = createSeat +
  legId :: int

record seatRow = seatInsert +
  seat_id :: int

text \<open>
  \<open>Omit<CreateLeg, 'seats'>\<close>, the value the leg validator produces. Aircraft and
  airline are reference entities of which the code only reads the id.
\<close>

record legData =
  leg_from :: "airport option"
  leg_to :: "airport option"
  duration :: "int option"
  departure :: "string option"
  arrival :: "string option"
  departureScheduled :: "string option"
  arrivalScheduled :: "string option"
  takeoffScheduled :: "string option"
  takeoffActual :: "string option"
  landingScheduled :: "string option"
  landingActual :: "string option"
  departureTerminal :: "string option"
  departureGate :: "string option"
  arrivalTerminal :: "string option"
  arrivalGate :: "string option"
  flightNumber :: "string option"
  aircraft :: "int option"
  aircraftReg :: "string option"
  airline :: "int option"

record createLeg = legData +
  seats :: "createSeat list"

record legRow = legData +
  leg_id :: int
  legOrder :: nat
  seatRows :: "seatRow list"

record flightData =
  date :: string
  flightReason :: "flightReason option"
  flightNote :: "string option"

record createFlight = flightData +
  legs :: "createLeg list"

record flightRow = flightData +
  flight_id :: int
  legRows :: "legRow list"

section \<open>The deduplication signature\<close>

definition signature :: "createFlight \<Rightarrow> string" where
  "signature f =
     (case legs f of
        [] \<Rightarrow> date f
      | firstLeg # _ \<Rightarrow>
          (let from = map_option airport_id (leg_from firstLeg);
               to = map_option airport_id (leg_to firstLeg)
           in js_join ''|''
                [JStr (date f),
                 numOrEmpty from,
                 numOrEmpty to,
                 strOrEmpty (flightNumber firstLeg),
                 strOrEmpty (aircraftReg firstLeg),
                 strOrEmpty (departure firstLeg),
                 strOrEmpty (arrival firstLeg),
                 JNum (int (length (legs f)))]))"

text \<open>The first loop of \<open>createManyFlights\<close>: de-duplicate the batch by signature.\<close>

definition uniqueFlights :: "createFlight list \<Rightarrow> createFlight list" where
  "uniqueFlights data = map snd (setIfAbsent signature (\<lambda>f. f) data [])"

section \<open>Date and time helpers\<close>

text \<open>
  An instant is a valid \<open>TZDate\<close>, represented by its epoch milliseconds; the zone it
  carries only matters when it is printed. The two functions of date-fns that compare
  instants depend on the epoch milliseconds alone: \<open>isBefore(a, b)\<close> is \<open>a < b\<close>, and
  \<open>differenceInSeconds(a, b)\<close> is the difference in milliseconds divided by 1000 and
  truncated towards zero.
\<close>

type_synonym instant = int

definition isBefore :: "instant \<Rightarrow> instant \<Rightarrow> bool" where
  "isBefore a b = (a < b)"

definition differenceInSeconds :: "instant \<Rightarrow> instant \<Rightarrow> int" where
  "differenceInSeconds laterDate earlierDate =
     (let diff = laterDate - earlierDate
      in if diff < 0 then - ((- diff) div 1000) else diff div 1000)"

text \<open>
  The helpers of \<open>$lib/utils/datetime\<close> and \<open>$lib/utils\<close> are not part of the sources
  at hand, so the validator takes them as a parameter. \<open>'d\<close> is the type of \<open>Date\<close>
  objects that \<open>parseISO\<close> and \<open>parseLocalISO\<close> return (possibly an invalid date).
  \<open>mergeTimeWithDate\<close> is the one helper the code guards with \<open>try\<close>: \<open>None\<close> stands for
  a throw. \<open>formatDate\<close> is \<open>format(d, 'yyyy-MM-dd')\<close>, which throws a \<open>RangeError\<close> on an
  invalid date (\<open>None\<close>). \<open>toUtcISOString\<close> is \<open>toUtc(x).toISOString()\<close>.
\<close>

record 'd dtEnv =
  parseISO :: "string \<Rightarrow> 'd"
  parseLocalISO :: "string \<Rightarrow> string \<Rightarrow> 'd"
  isBeforeEpoch :: "'d \<Rightarrow> bool"
  formatDate :: "'d \<Rightarrow> string option"
  mergeTimeWithDate :: "string \<Rightarrow> string \<Rightarrow> string \<Rightarrow> instant option"
  toUtcISOString :: "instant \<Rightarrow> string"
  distanceBetween :: "real \<times> real \<Rightarrow> real \<times> real \<Rightarrow> real"
  estimateFlightDuration :: "real \<Rightarrow> int"

section \<open>The leg validator\<close>

text \<open>A leg of \<open>z.infer<typeof flightSchema>\<close>: dates and times are separate strings.\<close>

record legInput =
  in_from :: airport
  in_to :: airport
  in_departure :: "string option"
  in_departureTime :: "string option"
  in_arrival :: "string option"
  in_arrivalTime :: "string option"
  in_departureScheduled :: "string option"
  in_departureScheduledTime :: "string option"
  in_arrivalScheduled :: "string option"
  in_arrivalScheduledTime :: "string option"
  in_takeoffScheduled :: "string option"
  in_takeoffScheduledTime :: "string option"
  in_takeoffActual :: "string option"
  in_takeoffActualTime :: "string option"
  in_landingScheduled :: "string option"
  in_landingScheduledTime :: "string option"
  in_landingActual :: "string option"
  in_landingActualTime :: "string option"
  in_departureTerminal :: "string option"
  in_departureGate :: "string option"
  in_arrivalTerminal :: "string option"
  in_arrivalGate :: "string option"
  in_flightNumber :: "string option"
  in_aircraft :: "int option"
  in_aircraftReg :: "string option"
  in_airline :: "int option"
  in_seats :: "createSeat list"

text \<open>\<open>ErrorActionResult & { id?: number }\<close>.\<close>

datatype actionResult =
    PathError string string
  | HttpError int string
  | OperationError string
  | Success string "int option"

definition pathError :: "nat \<Rightarrow> string \<Rightarrow> string \<Rightarrow> actionResult" where
  "pathError legIndex path message =
     PathError (''legs['' @ show_nat legIndex @ ''].'' @ path) message"

text \<open>The string held by a field that has been tested truthy.\<close>

definition strOf :: "string option \<Rightarrow> string" where
  "strOf s = (case s of None \<Rightarrow> [] | Some t \<Rightarrow> t)"

definition parseDateTimeField ::
  "'d dtEnv \<Rightarrow> nat \<Rightarrow> string option \<Rightarrow> string option \<Rightarrow> string \<Rightarrow> string
     \<Rightarrow> actionResult + instant option" where
  "parseDateTimeField env legIndex dateStr time tzId path =
     (if \<not> truthy dateStr \<or> \<not> truthy time then Inr None
      else case mergeTimeWithDate env (strOf dateStr) (strOf time) tzId of
             Some v \<Rightarrow> Inr (Some v)
           | None \<Rightarrow> Inl (pathError legIndex path ''Invalid time format''))"

text \<open>
  \<open>legData.departure ?? legData.departureScheduled\<close>; the non-null assertion that
  follows is justified by the first check of the validator.
\<close>

definition primaryDepartureDate :: "legInput \<Rightarrow> string" where
  "primaryDepartureDate leg =
     (case in_departure leg of Some d \<Rightarrow> d | None \<Rightarrow> strOf (in_departureScheduled leg))"

text \<open>
  The departure instant (lines 86 to 95) and the arrival instant (lines 134 to 146).
  The validator overwrites \<open>legData.arrival\<close> with \<open>legData.departure\<close> when an arrival
  time comes without an arrival date; \<open>effectiveArrival\<close> is the field after that
  assignment. Nothing reads the overwritten field of the input afterwards.
\<close>

definition resolveDeparture :: "'d dtEnv \<Rightarrow> legInput \<Rightarrow> nat \<Rightarrow> actionResult + instant option" where
  "resolveDeparture env leg legIndex =
     (if truthy (in_departure leg) then
        (if truthy (in_departureTime leg) then
           (case mergeTimeWithDate env (strOf (in_departure leg)) (strOf (in_departureTime leg))
                   (tz (in_from leg)) of
              Some v \<Rightarrow> Inr (Some v)
            | None \<Rightarrow> Inl (pathError legIndex ''departureTime'' ''Invalid time format''))
         else Inr None)
      else Inr None)"

definition effectiveArrival :: "legInput \<Rightarrow> string option" where
  "effectiveArrival leg =
     (if truthy (in_arrivalTime leg) \<and> \<not> truthy (in_arrival leg) then in_departure leg
      else in_arrival leg)"

definition resolveArrival :: "'d dtEnv \<Rightarrow> legInput \<Rightarrow> nat \<Rightarrow> actionResult + instant option" where
  "resolveArrival env leg legIndex =
     (if truthy (effectiveArrival leg) \<and> truthy (in_arrivalTime leg) then
        (case mergeTimeWithDate env (strOf (effectiveArrival leg)) (strOf (in_arrivalTime leg))
                (tz (in_to leg)) of
           Some v \<Rightarrow> Inr (Some v)
         | None \<Rightarrow> Inl (pathError legIndex ''arrivalTime'' ''Invalid time format''))
      else Inr None)"

definition computeDuration ::
  "'d dtEnv \<Rightarrow> legInput \<Rightarrow> instant option \<Rightarrow> instant option \<Rightarrow> int option" where
  "computeDuration env leg dep arr =
     (case (dep, arr) of
        (Some d, Some a) \<Rightarrow> Some (differenceInSeconds a d)
      | _ \<Rightarrow>
        if airport_id (in_from leg) \<noteq> airport_id (in_to leg) then
          Some (estimateFlightDuration env
                  (distanceBetween env (lon (in_from leg), lat (in_from leg))
                                       (lon (in_to leg), lat (in_to leg)) / 1000))
        else None)"

text \<open>
  The validator in two steps. Lines 68 to 173 resolve the eight instants of the leg, in
  the order of the source, and return the error of the first field that is rejected.
  Lines 175 to 221 compare arrival with departure and build the normalised leg.
\<close>

record legInstants =
  i_departure :: "instant option"
  i_departureScheduled :: "instant option"
  i_takeoffScheduled :: "instant option"
  i_takeoffActual :: "instant option"
  i_arrival :: "instant option"
  i_arrivalScheduled :: "instant option"
  i_landingScheduled :: "instant option"
  i_landingActual :: "instant option"

definition resolveInstants :: "'d dtEnv \<Rightarrow> legInput \<Rightarrow> nat \<Rightarrow> actionResult + legInstants" where
  "resolveInstants env leg legIndex =
     (let from = in_from leg; to = in_to leg in
      if \<not> truthy (in_departure leg) \<and> \<not> truthy (in_departureScheduled leg) then
        Inl (pathError legIndex ''departure'' ''Select a departure date'')
      else if isBeforeEpoch env (parseISO env (primaryDepartureDate leg)) then
        Inl (pathError legIndex
               (if truthy (in_departure leg) then ''departure'' else ''departureScheduled'')
               ''Too far in the past'')
      else
      case resolveDeparture env leg legIndex of Inl err \<Rightarrow> Inl err | Inr dep \<Rightarrow>
      case parseDateTimeField env legIndex (in_departureScheduled leg)
             (in_departureScheduledTime leg) (tz from) ''departureScheduledTime'' of
        Inl err \<Rightarrow> Inl err | Inr depScheduled \<Rightarrow>
      case parseDateTimeField env legIndex (in_takeoffScheduled leg)
             (in_takeoffScheduledTime leg) (tz from) ''takeoffScheduledTime'' of
        Inl err \<Rightarrow> Inl err | Inr tkScheduled \<Rightarrow>
      case parseDateTimeField env legIndex (in_takeoffActual leg)
             (in_takeoffActualTime leg) (tz from) ''takeoffActualTime'' of
        Inl err \<Rightarrow> Inl err | Inr tkActual \<Rightarrow>
      if truthy (in_arrival leg)
         \<and> isBeforeEpoch env (parseLocalISO env (strOf (in_arrival leg)) (tz to)) then
        Inl (pathError legIndex ''arrival'' ''Too far in the past'')
      else if truthy (in_arrival leg) \<and> \<not> truthy (in_arrivalTime leg) then
        Inl (pathError legIndex ''arrival'' ''Cannot have arrival date without time'')
      else
      case resolveArrival env leg legIndex of Inl err \<Rightarrow> Inl err | Inr arr \<Rightarrow>
      case parseDateTimeField env legIndex (in_arrivalScheduled leg)
             (in_arrivalScheduledTime leg) (tz to) ''arrivalScheduledTime'' of
        Inl err \<Rightarrow> Inl err | Inr arrScheduled \<Rightarrow>
      case parseDateTimeField env legIndex (in_landingScheduled leg)
             (in_landingScheduledTime leg) (tz to) ''landingScheduledTime'' of
        Inl err \<Rightarrow> Inl err | Inr ldScheduled \<Rightarrow>
      case parseDateTimeField env legIndex (in_landingActual leg)
             (in_landingActualTime leg) (tz to) ''landingActualTime'' of
        Inl err \<Rightarrow> Inl err | Inr ldActual \<Rightarrow>
        Inr \<lparr> i_departure = dep,
              i_departureScheduled = depScheduled,
              i_takeoffScheduled = tkScheduled,
              i_takeoffActual = tkActual,
              i_arrival = arr,
              i_arrivalScheduled = arrScheduled,
              i_landingScheduled = ldScheduled,
              i_landingActual = ldActual \<rparr>)"

definition arrivalPrecedesDeparture :: "legInstants \<Rightarrow> bool" where
  "arrivalPrecedesDeparture t =
     (case (i_arrival t, i_departure t) of (Some a, Some d) \<Rightarrow> isBefore a d | _ \<Rightarrow> False)"

definition validateAndProcessLeg :: "'d dtEnv \<Rightarrow> legInput \<Rightarrow> nat \<Rightarrow> actionResult + legData" where
  "validateAndProcessLeg env leg legIndex =
     (case resolveInstants env leg legIndex of
        Inl err \<Rightarrow> Inl err
      | Inr t \<Rightarrow>
        if arrivalPrecedesDeparture t then
          Inl (pathError legIndex ''arrival'' ''Arrival must be after departure'')
        else
          Inr \<lparr> leg_from = Some (in_from leg),
                leg_to = Some (in_to leg),
                duration = computeDuration env leg (i_departure t) (i_arrival t),
                departure = map_option (toUtcISOString env) (i_departure t),
                arrival = map_option (toUtcISOString env) (i_arrival t),
                departureScheduled = map_option (toUtcISOString env) (i_departureScheduled t),
                arrivalScheduled = map_option (toUtcISOString env) (i_arrivalScheduled t),
                takeoffScheduled = map_option (toUtcISOString env) (i_takeoffScheduled t),
                takeoffActual = map_option (toUtcISOString env) (i_takeoffActual t),
                landingScheduled = map_option (toUtcISOString env) (i_landingScheduled t),
                landingActual = map_option (toUtcISOString env) (i_landingActual t),
                departureTerminal = in_departureTerminal leg,
                departureGate = in_departureGate leg,
                arrivalTerminal = in_arrivalTerminal leg,
                arrivalGate = in_arrivalGate leg,
                flightNumber = in_flightNumber leg,
                aircraft = in_aircraft leg,
                aircraftReg = in_aircraftReg leg,
                airline = in_airline leg \<rparr>)"

section \<open>The flight assembler\<close>

text \<open>
  The store boundary of \<open>validateAndSaveFlight\<close>: \<open>getFlight\<close>, \<open>createFlight\<close> and
  \<open>updateFlight\<close> over a store state \<open>'s\<close>. The two writes are called inside \<open>try\<close>;
  \<open>None\<close> stands for a throw, which leaves the store as it was (both primitives run in
  one transaction).
\<close>

record 's store =
  storeGetFlight :: "int \<Rightarrow> 's \<Rightarrow> flightRow option"
  storeCreateFlight :: "createFlight \<Rightarrow> 's \<Rightarrow> (int \<times> 's) option"
  storeUpdateFlight :: "int \<Rightarrow> createFlight \<Rightarrow> 's \<Rightarrow> 's option"

record user =
  user_id :: string

record flightInput =
  in_id :: "int option"
  in_flightReason :: "flightReason option"
  in_note :: "string option"
  in_legs :: "legInput list"

text \<open>
  Exceptions that escape \<open>validateAndSaveFlight\<close>: \<open>data.legs[0]!\<close> of an empty list is
  \<open>undefined\<close>, and reading its \<open>departure\<close> is a \<open>TypeError\<close>; \<open>format\<close> of an invalid
  date is a \<open>RangeError\<close>.
\<close>

datatype jsError = TypeError | RangeError

text \<open>The loop over \<open>data.legs\<close>, with its index and the accumulator \<open>processedLegs\<close>.\<close>

fun processLegs ::
  "'d dtEnv \<Rightarrow> legInput list \<Rightarrow> nat \<Rightarrow> createLeg list \<Rightarrow> actionResult + createLeg list" where
  "processLegs env [] i processedLegs = Inr processedLegs"
| "processLegs env (leg # rest) i processedLegs =
     (case validateAndProcessLeg env leg i of
        Inl err \<Rightarrow> Inl err
      | Inr v \<Rightarrow>
          processLegs env rest (Suc i)
            (processedLegs @ [legData.extend v (createLeg.fields (in_seats leg))]))"

definition holdsSeat :: "string \<Rightarrow> flightRow \<Rightarrow> bool" where
  "holdsSeat uid flight =
     list_ex (\<lambda>leg. list_ex (\<lambda>s. userId s = Some uid) (seatRows leg)) (legRows flight)"

text \<open>The two ways out of \<open>validateAndSaveFlight\<close>: lines 255 to 279 and lines 282 to 297.\<close>

definition saveUpdate ::
  "'s store \<Rightarrow> user \<Rightarrow> int \<Rightarrow> createFlight \<Rightarrow> 's \<Rightarrow> (jsError + actionResult) \<times> 's" where
  "saveUpdate st usr updateId values s =
     (if \<not> (case storeGetFlight st updateId s of
               None \<Rightarrow> False
             | Some flight \<Rightarrow> holdsSeat (user_id usr) flight) then
        (Inr (HttpError 403 ''Flight not found or you do not have a seat on this flight''), s)
      else
        (case storeUpdateFlight st updateId values s of
           None \<Rightarrow> (Inr (OperationError ''Failed to update flight''), s)
         | Some s' \<Rightarrow> (Inr (Success ''Flight updated successfully'' None), s')))"

definition saveNew ::
  "'s store \<Rightarrow> createFlight \<Rightarrow> 's \<Rightarrow> (jsError + actionResult) \<times> 's" where
  "saveNew st values s =
     (case storeCreateFlight st values s of
        None \<Rightarrow> (Inr (OperationError ''Failed to add flight''), s)
      | Some (flightId, s') \<Rightarrow> (Inr (Success ''Flight added'' (Some flightId)), s'))"

definition validateAndSaveFlight ::
  "'d dtEnv \<Rightarrow> 's store \<Rightarrow> user \<Rightarrow> flightInput \<Rightarrow> 's \<Rightarrow> (jsError + actionResult) \<times> 's" where
  "validateAndSaveFlight env st usr data s =
     (case processLegs env (in_legs data) 0 [] of
        Inl err \<Rightarrow> (Inr err, s)
      | Inr processedLegs \<Rightarrow>
        (case in_legs data of
           [] \<Rightarrow> (Inl TypeError, s)
         | firstLeg # _ \<Rightarrow>
           (case formatDate env (parseISO env (primaryDepartureDate firstLeg)) of
              None \<Rightarrow> (Inl RangeError, s)
            | Some formatted \<Rightarrow>
              (let values = \<lparr> date = formatted,
                               flightReason = in_flightReason data,
                               flightNote = in_note data,
                               legs = processedLegs \<rparr>
               in case in_id data of
                    None \<Rightarrow> saveNew st values s
                  | Some updateId \<Rightarrow>
                      if updateId \<noteq> 0 then saveUpdate st usr updateId values s
                      else saveNew st values s))))"

section \<open>The database behind the store\<close>

text \<open>
  The tables \<open>flight\<close>, \<open>leg\<close> and \<open>seat\<close> are kept in the shape the list query returns
  them: flights in insertion order, each with its legs in \<open>leg_order\<close> and each leg with
  its seat rows. The three \<open>SERIAL\<close> columns are counters. The tables that legs and
  seats refer to (\<open>airport\<close>, \<open>aircraft\<close>, \<open>airline\<close>, \<open>user\<close>) are kept as the lists of
  their keys.

  A write can be refused. The migration gives \<open>leg\<close> foreign keys to \<open>airport\<close> (twice),
  \<open>aircraft\<close> and \<open>airline\<close>, and gives \<open>seat\<close> a foreign key to \<open>leg\<close> and the constraints
  \<open>UNIQUE (leg_id, user_id)\<close> and \<open>UNIQUE (leg_id, guest_name)\<close>, in which nulls do not
  collide; a seat's user must exist (a foreign key older than that migration). A
  statement that violates one of them throws, and the transaction it runs in is rolled
  back: the primitive then returns an error and no new state. Failures that no
  constraint explains (a lost connection) are not modelled. Neither are the numbers a
  rolled-back transaction has drawn from the sequences, which Postgres does not hand
  back: after a refused write the counters here are as before, and only the rows are
  meant.
\<close>

datatype storeError = ConstraintViolation

record db =
  flights :: "flightRow list"
  nextFlightId :: int
  nextLegId :: int
  nextSeatId :: int
  airportIds :: "int list"
  aircraftIds :: "int list"
  airlineIds :: "int list"
  userIds :: "string list"


text \<open>A nullable foreign key: null, or a key of the table.\<close>

definition refOk :: "'k list \<Rightarrow> 'k option \<Rightarrow> bool" where
  "refOk keys k = (case k of None \<Rightarrow> True | Some x \<Rightarrow> x \<in> set keys)"

text \<open>
  The two uniqueness constraints on the seats of one leg, over the pairs of user id and
  guest name of its seats.
\<close>

definition seatIdentity :: "'a createSeat_scheme \<Rightarrow> string option \<times> string option" where
  "seatIdentity s = (userId s, guestName s)"

definition seatKeysUnique :: "(string option \<times> string option) list \<Rightarrow> bool" where
  "seatKeysUnique ss =
     (distinct (filter (\<lambda>u. u \<noteq> None) (map fst ss))
      \<and> distinct (filter (\<lambda>g. g \<noteq> None) (map snd ss)))"

definition legRefsOk :: "db \<Rightarrow> 'a legData_scheme \<Rightarrow> bool" where
  "legRefsOk d leg =
     (refOk (airportIds d) (map_option airport_id (leg_from leg))
      \<and> refOk (airportIds d) (map_option airport_id (leg_to leg))
      \<and> refOk (aircraftIds d) (aircraft leg)
      \<and> refOk (airlineIds d) (airline leg))"

text \<open>The seats of a new leg: their users exist and they do not collide with each other.\<close>

definition newSeatsOk :: "db \<Rightarrow> createSeat list \<Rightarrow> bool" where
  "newSeatsOk d ss =
     (list_all (\<lambda>s. refOk (userIds d) (userId s)) ss \<and> seatKeysUnique (map seatIdentity ss))"

fun insertSeats :: "int \<Rightarrow> int \<Rightarrow> createSeat list \<Rightarrow> seatRow list" where
  "insertSeats lid sid [] = []"
| "insertSeats lid sid (s # ss) =
     \<lparr> userId = userId s,
       guestName = guestName s,
       seat = seat s,
       seatNumber = seatNumber s,
       seatClass = seatClass s,
       legId = lid,
       seat_id = sid \<rparr> # insertSeats lid (sid + 1) ss"

text \<open>
  The loop over the legs of one flight: the insert of the leg row, then, if the leg has
  seats, the insert of its seat rows. Either statement can throw.
\<close>

fun insertLegs ::
  "db \<Rightarrow> createLeg list \<Rightarrow> nat \<Rightarrow> int \<Rightarrow> int \<Rightarrow> storeError + (legRow list \<times> int \<times> int)" where
  "insertLegs d [] i lid sid = Inr ([], lid, sid)"
| "insertLegs d (leg # rest) i lid sid =
     (if \<not> legRefsOk d leg then Inl ConstraintViolation
      else if seats leg \<noteq> [] \<and> \<not> newSeatsOk d (seats leg) then Inl ConstraintViolation
      else
        (case insertLegs d rest (Suc i) (lid + 1) (sid + int (length (seats leg))) of
           Inl e \<Rightarrow> Inl e
         | Inr (rows, lid', sid') \<Rightarrow>
             Inr (legData.extend (legData.truncate leg)
                    (legRow.fields lid i (insertSeats lid sid (seats leg))) # rows, lid', sid')))"

definition insertFlight :: "createFlight \<Rightarrow> db \<Rightarrow> storeError + (int \<times> db)" where
  "insertFlight f d =
     (case insertLegs d (legs f) 0 (nextLegId d) (nextSeatId d) of
        Inl e \<Rightarrow> Inl e
      | Inr (rows, lid, sid) \<Rightarrow>
          Inr (nextFlightId d,
               d \<lparr> flights := flights d @
                      [flightData.extend (flightData.truncate f)
                         (flightRow.fields (nextFlightId d) rows)],
                   nextFlightId := nextFlightId d + 1,
                   nextLegId := lid,
                   nextSeatId := sid \<rparr>))"

definition createFlightPrimitive :: "createFlight \<Rightarrow> db \<Rightarrow> storeError + (int \<times> db)" where
  "createFlightPrimitive data d = insertFlight data d"

text \<open>One transaction for the whole batch: the first statement that throws ends it.\<close>

fun createManyFlightsPrimitive :: "db \<Rightarrow> createFlight list \<Rightarrow> storeError + db" where
  "createManyFlightsPrimitive d [] = Inr d"
| "createManyFlightsPrimitive d (flight # rest) =
     (case insertFlight flight d of
        Inl e \<Rightarrow> Inl e
      | Inr (fid, d') \<Rightarrow> createManyFlightsPrimitive d' rest)"

definition getFlightPrimitive :: "db \<Rightarrow> int \<Rightarrow> flightRow option" where
  "getFlightPrimitive d fid = find (\<lambda>f. flight_id f = fid) (flights d)"

text \<open>
  The update replaces the flight's own columns, deletes its legs (and with them their
  seats) and inserts the new legs. For a flight id that does not exist the first two
  statements change nothing, and the insert of a leg violates the foreign key to
  \<open>flight\<close>.
\<close>

definition updateFlightPrimitive :: "db \<Rightarrow> int \<Rightarrow> createFlight \<Rightarrow> storeError + db" where
  "updateFlightPrimitive d fid data =
     (if \<not> list_ex (\<lambda>f. flight_id f = fid) (flights d) then
        (if legs data = [] then Inr d else Inl ConstraintViolation)
      else
        (case insertLegs d (legs data) 0 (nextLegId d) (nextSeatId d) of
           Inl e \<Rightarrow> Inl e
         | Inr (rows, lid, sid) \<Rightarrow>
             Inr (d \<lparr> flights :=
                        map (\<lambda>f. if flight_id f = fid
                                  then flightData.extend (flightData.truncate data)
                                         (flightRow.fields fid rows)
                                  else f) (flights d),
                      nextLegId := lid,
                      nextSeatId := sid \<rparr>)))"

text \<open>The store of \<open>validateAndSaveFlight\<close> over this database: a throw is \<open>None\<close>.\<close>

definition dbStore :: "db store" where
  "dbStore =
     \<lparr> storeGetFlight = (\<lambda>fid d. getFlightPrimitive d fid),
       storeCreateFlight =
         (\<lambda>data d. case createFlightPrimitive data d of Inl e \<Rightarrow> None | Inr r \<Rightarrow> Some r),
       storeUpdateFlight =
         (\<lambda>fid data d. case updateFlightPrimitive d fid data of Inl e \<Rightarrow> None | Inr d' \<Rightarrow> Some d') \<rparr>"

text \<open>\<open>listFlightBaseQuery\<close>: the flights on which the user holds a seat on some leg.\<close>

definition listFlightsQuery :: "db \<Rightarrow> string \<Rightarrow> flightRow list" where
  "listFlightsQuery d uid = filter (holdsSeat uid) (flights d)"

text \<open>
  The batched seat lookup of \<open>createManyFlights\<close>: one \<open>flightId\<close> for every seat row of
  the user on a leg of one of the given flights.
\<close>

definition userSeatsQuery :: "db \<Rightarrow> string \<Rightarrow> int list \<Rightarrow> int list" where
  "userSeatsQuery d uid existingIds =
     concat (map (\<lambda>f. concat (map (\<lambda>leg. map (\<lambda>s. flight_id f)
                                          (filter (\<lambda>s. userId s = Some uid) (seatRows leg)))
                               (legRows f)))
                 (filter (\<lambda>f. flight_id f \<in> set existingIds) (flights d)))"

text \<open>
  \<open>db.insertInto('seat').values(rows)\<close>: every row gets the next id and joins its leg.
  The statement throws if a row names a leg or a user that does not exist, or if on some
  leg the users or the guest names of the old and the new seats collide.
\<close>

fun numberSeats :: "int \<Rightarrow> seatInsert list \<Rightarrow> seatRow list" where
  "numberSeats sid [] = []"
| "numberSeats sid (s # ss) =
     seatInsert.extend s (seatRow.fields sid) # numberSeats (sid + 1) ss"

definition allLegs :: "db \<Rightarrow> legRow list" where
  "allLegs d = concat (map legRows (flights d))"

definition seatRowsOk :: "db \<Rightarrow> seatInsert list \<Rightarrow> bool" where
  "seatRowsOk d rows =
     (list_all (\<lambda>s. legId s \<in> set (map leg_id (allLegs d)) \<and> refOk (userIds d) (userId s)) rows
      \<and> list_all (\<lambda>leg. seatKeysUnique
                           (map seatIdentity (seatRows leg)
                            @ map seatIdentity (filter (\<lambda>s. legId s = leg_id leg) rows)))
           (allLegs d))"

definition insertSeatRows :: "db \<Rightarrow> seatInsert list \<Rightarrow> storeError + db" where
  "insertSeatRows d rows =
     (if \<not> seatRowsOk d rows then Inl ConstraintViolation
      else
        (let numbered = numberSeats (nextSeatId d) rows
         in Inr (d \<lparr> flights :=
                       map (\<lambda>f. f \<lparr> legRows :=
                                      map (\<lambda>leg. leg \<lparr> seatRows := seatRows leg @
                                             filter (\<lambda>s. legId s = leg_id leg) numbered \<rparr>)
                                          (legRows f) \<rparr>)
                           (flights d),
                     nextSeatId := nextSeatId d + int (length rows) \<rparr>)))"

section \<open>The deduplication matcher\<close>

record importResult =
  insertedFlights :: nat
  attachedSeats :: nat

text \<open>An existing flight in \<open>CreateFlight\<close>-compatible shape (lines 386 to 400).\<close>

definition toCreateLeg :: "legRow \<Rightarrow> createLeg" where
  "toCreateLeg l =
     legData.extend (legData.truncate l) (createLeg.fields (map createSeat.truncate (seatRows l)))"

definition toCreateFlight :: "flightRow \<Rightarrow> createFlight" where
  "toCreateFlight ef =
     \<lparr> date = date ef,
       flightReason = flightReason ef,
       flightNote = flightNote ef,
       legs = map toCreateLeg (legRows ef) \<rparr>"

text \<open>\<open>legs[0]?.from?.id\<close> and \<open>legs[0]?.to?.id\<close>.\<close>

definition firstLegFromId :: "'a legData_scheme list \<Rightarrow> int option" where
  "firstLegFromId ls = (case ls of [] \<Rightarrow> None | l # _ \<Rightarrow> map_option airport_id (leg_from l))"

definition firstLegToId :: "'a legData_scheme list \<Rightarrow> int option" where
  "firstLegToId ls = (case ls of [] \<Rightarrow> None | l # _ \<Rightarrow> map_option airport_id (leg_to l))"

text \<open>\<open>x ?? -1\<close> on a nullable number.\<close>

definition orMinusOne :: "int option \<Rightarrow> int" where
  "orMinusOne n = (case n of None \<Rightarrow> - 1 | Some k \<Rightarrow> k)"

text \<open>
  The candidate space (lines 351 to 381): the user's flights on one of the batch's dates
  whose first leg starts and ends at airports of the batch. The sets \<open>dates\<close>, \<open>froms\<close>
  and \<open>tos\<close> are lists here; only their emptiness and membership are used.
\<close>

definition existingCandidates :: "db \<Rightarrow> string \<Rightarrow> createFlight list \<Rightarrow> flightRow list" where
  "existingCandidates d uid us =
     (let dates = map date us;
          froms = filter truthyNum (map (\<lambda>f. firstLegFromId (legs f)) us);
          tos = filter truthyNum (map (\<lambda>f. firstLegToId (legs f)) us)
      in if dates \<noteq> [] \<and> froms \<noteq> [] \<and> tos \<noteq> [] then
           filter (\<lambda>ef. case legRows ef of
                          [] \<Rightarrow> False
                        | firstLeg # _ \<Rightarrow>
                            Some (orMinusOne (map_option airport_id (leg_from firstLeg))) \<in> set froms
                            \<and> Some (orMinusOne (map_option airport_id (leg_to firstLeg))) \<in> set tos)
             (filter (\<lambda>ef. date ef \<in> set dates) (listFlightsQuery d uid))
         else [])"

text \<open>The seat rows queued for an incoming flight that matches an existing one.\<close>

definition seatsForExisting :: "flightRow list \<Rightarrow> int \<Rightarrow> createFlight \<Rightarrow> seatInsert list" where
  "seatsForExisting existingFlights existingId f =
     (case find (\<lambda>ef. flight_id ef = existingId) existingFlights of
        None \<Rightarrow> []
      | Some existingFlight \<Rightarrow>
        (case legRows existingFlight of
           [] \<Rightarrow> []
         | firstLeg # _ \<Rightarrow>
           if leg_id firstLeg \<noteq> 0 then
             map (\<lambda>s. \<lparr> userId = userId s,
                        guestName = guestName s,
                        seat = seat s,
                        seatNumber = seatNumber s,
                        seatClass = seatClass s,
                        legId = leg_id firstLeg \<rparr>)
                 (case legs f of [] \<Rightarrow> [] | l # _ \<Rightarrow> seats l)
           else []))"

text \<open>The loop over \<open>uniqueFlights\<close> (lines 422 to 450) with its two accumulators.\<close>

fun partitionFlights ::
  "(string \<times> int) list \<Rightarrow> int list \<Rightarrow> flightRow list \<Rightarrow> createFlight list
     \<Rightarrow> createFlight list \<Rightarrow> seatInsert list \<Rightarrow> createFlight list \<times> seatInsert list" where
  "partitionFlights existingBySig userSeatByFlight existingFlights [] flightsToInsert seatsToAttach =
     (flightsToInsert, seatsToAttach)"
| "partitionFlights existingBySig userSeatByFlight existingFlights (f # rest) flightsToInsert seatsToAttach =
     (case map_of existingBySig (signature f) of
        None \<Rightarrow>
          partitionFlights existingBySig userSeatByFlight existingFlights rest
            (flightsToInsert @ [f]) seatsToAttach
      | Some existingId \<Rightarrow>
          if existingId \<noteq> 0 then
            (if existingId \<in> set userSeatByFlight then
               partitionFlights existingBySig userSeatByFlight existingFlights rest
                 flightsToInsert seatsToAttach
             else
               partitionFlights existingBySig userSeatByFlight existingFlights rest
                 flightsToInsert (seatsToAttach @ seatsForExisting existingFlights existingId f))
          else
            partitionFlights existingBySig userSeatByFlight existingFlights rest
              (flightsToInsert @ [f]) seatsToAttach)"

text \<open>The seat-attachment phase (lines 459 to 474).\<close>

definition seatKey :: "seatInsert \<Rightarrow> string" where
  "seatKey s = show_int (legId s) @ ''|'' @ (case userId s of None \<Rightarrow> [] | Some u \<Rightarrow> u)"

definition uniqueSeats :: "seatInsert list \<Rightarrow> seatInsert list" where
  "uniqueSeats seatsToAttach = map snd (setIfAbsent seatKey (\<lambda>s. s) seatsToAttach [])"

definition attachSeats :: "db \<Rightarrow> seatInsert list \<Rightarrow> (storeError + nat) \<times> db" where
  "attachSeats d seatsToAttach =
     (if seatsToAttach \<noteq> [] then
        (if uniqueSeats seatsToAttach \<noteq> [] then
           (case insertSeatRows d (uniqueSeats seatsToAttach) of
              Inl e \<Rightarrow> (Inl e, d)
            | Inr d' \<Rightarrow> (Inr (length (uniqueSeats seatsToAttach)), d'))
         else (Inr 0, d))
      else (Inr 0, d))"

definition existingBySig :: "flightRow list \<Rightarrow> (string \<times> int) list" where
  "existingBySig existingFlights =
     setIfAbsent (\<lambda>ef. signature (toCreateFlight ef)) flight_id existingFlights []"

definition userSeatByFlight :: "db \<Rightarrow> string \<Rightarrow> flightRow list \<Rightarrow> int list" where
  "userSeatByFlight d uid existingFlights =
     (let existingIds = remdups (map flight_id existingFlights)
      in if existingIds \<noteq> [] then userSeatsQuery d uid existingIds else [])"

text \<open>
  \<open>createManyFlights\<close> catches nothing: a refused write is the outcome of the call. The
  bulk insert and the seat insert are separate units of work, so flights inserted by the
  first stay when the second is refused.
\<close>

definition createManyFlights ::
  "createFlight list \<Rightarrow> string \<Rightarrow> bool \<Rightarrow> db \<Rightarrow> (storeError + importResult) \<times> db" where
  "createManyFlights data uid dedupe d =
     (if \<not> dedupe then
        (case createManyFlightsPrimitive d data of
           Inl e \<Rightarrow> (Inl e, d)
         | Inr d' \<Rightarrow>
             (Inr \<lparr> insertedFlights = length data,
                    attachedSeats =
                      sum_list (map (\<lambda>f. sum_list (map (\<lambda>l. length (seats l)) (legs f))) data) \<rparr>,
              d'))
      else if uniqueFlights data = [] then
        (Inr \<lparr> insertedFlights = 0, attachedSeats = 0 \<rparr>, d)
      else
        (let existingFlights = existingCandidates d uid (uniqueFlights data)
         in case partitionFlights (existingBySig existingFlights)
                   (userSeatByFlight d uid existingFlights) existingFlights
                   (uniqueFlights data) [] [] of
              (flightsToInsert, seatsToAttach) \<Rightarrow>
                (case (if flightsToInsert \<noteq> []
                       then createManyFlightsPrimitive d flightsToInsert else Inr d) of
                   Inl e \<Rightarrow> (Inl e, d)
                 | Inr d1 \<Rightarrow>
                     (case attachSeats d1 seatsToAttach of
                        (Inl e, d2) \<Rightarrow> (Inl e, d2)
                      | (Inr attached, d2) \<Rightarrow>
                          (Inr \<lparr> insertedFlights =
                                   (if flightsToInsert \<noteq> [] then length flightsToInsert else 0),
                                 attachedSeats = attached \<rparr>, d2)))))"

section \<open>Well-formed flights and databases\<close>

text \<open>
  A calendar date as the engine writes it (\<open>yyyy-MM-dd\<close>) contains no bar. A routed
  flight is one whose first leg has both airports, with ids that pass the matcher's own
  \<open>!!id\<close> test. The ids of the \<open>flight\<close> table come from a \<open>SERIAL\<close> column, so they are
  positive.
\<close>

definition plainDate :: "string \<Rightarrow> bool" where
  "plainDate s = (CHR ''|'' \<notin> set s)"

definition routedFlight :: "createFlight \<Rightarrow> bool" where
  "routedFlight f = (truthyNum (firstLegFromId (legs f)) \<and> truthyNum (firstLegToId (legs f)))"



definition wfDb :: "db \<Rightarrow> bool" where
  "wfDb d = (0 < nextFlightId d
             \<and> list_all (\<lambda>e. 0 < flight_id e \<and> plainDate (date e)) (flights d))"

section \<open>A reference resolver for the examples\<close>

text \<open>
  Modelled from the spec: the Timezone Datetime Resolver (\<open>mergeTimeWithDate\<close>,
  \<open>parseISO\<close>, \<open>parseLocalISO\<close>, \<open>isBeforeEpoch\<close>, \<open>toUtc\<close> of \<open>$lib/utils/datetime\<close>),
  which is missing from the sources. The spec asks that a local calendar date and a local
  time of day be merged into an instant anchored to the given zone, that the merge fail on
  a malformed date or time and on an unknown zone, and that instants before 1970 be
  flagged. This resolver reads dates as \<open>yyyy-MM-dd\<close> in the proleptic Gregorian calendar
  and times as \<open>HH:mm\<close>, and knows the zones that keep one offset all year.
  It is only used to run the validator on concrete legs.
\<close>

definition digitVal :: "char \<Rightarrow> nat option" where
  "digitVal c =
     (let k = (of_char c :: nat) in if 48 \<le> k \<and> k \<le> 57 then Some (k - 48) else None)"

fun parseDigits :: "string \<Rightarrow> nat \<Rightarrow> nat option" where
  "parseDigits [] acc = Some acc"
| "parseDigits (c # cs) acc =
     (case digitVal c of None \<Rightarrow> None | Some k \<Rightarrow> parseDigits cs (10 * acc + k))"

definition parseNat :: "string \<Rightarrow> nat option" where
  "parseNat s = (if s = [] then None else parseDigits s 0)"

definition isLeapYear :: "int \<Rightarrow> bool" where
  "isLeapYear y = (y mod 4 = 0 \<and> (y mod 100 \<noteq> 0 \<or> y mod 400 = 0))"

definition daysInMonth :: "int \<Rightarrow> int \<Rightarrow> int" where
  "daysInMonth y m =
     (if m = 2 then (if isLeapYear y then 29 else 28)
      else if m = 4 \<or> m = 6 \<or> m = 9 \<or> m = 11 then 30 else 31)"

definition daysFromCivil :: "int \<Rightarrow> int \<Rightarrow> int \<Rightarrow> int" where
  "daysFromCivil y m d =
     (let y' = (if m \<le> 2 then y - 1 else y);
          era = y' div 400;
          yoe = y' - era * 400;
          doy = (153 * (if m > 2 then m - 3 else m + 9) + 2) div 5 + d - 1;
          doe = yoe * 365 + yoe div 4 - yoe div 100 + doy
      in era * 146097 + doe - 719468)"

definition civilFromDays :: "int \<Rightarrow> int \<times> int \<times> int" where
  "civilFromDays z =
     (let z' = z + 719468;
          era = z' div 146097;
          doe = z' - era * 146097;
          yoe = (doe - doe div 1460 + doe div 36524 - doe div 146096) div 365;
          doy = doe - (365 * yoe + yoe div 4 - yoe div 100);
          mp = (5 * doy + 2) div 153;
          d = doy - (153 * mp + 2) div 5 + 1;
          m = (if mp < 10 then mp + 3 else mp - 9);
          y = yoe + era * 400
      in (if m \<le> 2 then y + 1 else y, m, d))"

definition parseCalendarDate :: "string \<Rightarrow> int option" where
  "parseCalendarDate s =
     (if length s = 10 \<and> s ! 4 = CHR ''-'' \<and> s ! 7 = CHR ''-'' then
        (case (parseNat (take 4 s), parseNat (take 2 (drop 5 s)), parseNat (drop 8 s)) of
           (Some y, Some m, Some d) \<Rightarrow>
             if 1 \<le> m \<and> m \<le> 12 \<and> 1 \<le> d \<and> int d \<le> daysInMonth (int y) (int m)
             then Some (daysFromCivil (int y) (int m) (int d)) else None
         | _ \<Rightarrow> None)
      else None)"

definition parseTimeOfDay :: "string \<Rightarrow> int option" where
  "parseTimeOfDay s =
     (if length s = 5 \<and> s ! 2 = CHR '':'' then
        (case (parseNat (take 2 s), parseNat (drop 3 s)) of
           (Some h, Some m) \<Rightarrow> if h < 24 \<and> m < 60 then Some (int h * 60 + int m) else None
         | _ \<Rightarrow> None)
      else None)"

text \<open>Minutes east of UTC. The sign in the names of the \<open>Etc\<close> zones is inverted.\<close>

definition zoneOffsetMinutes :: "string \<Rightarrow> int option" where
  "zoneOffsetMinutes z =
     map_of [(''UTC'', 0), (''Etc/GMT+5'', - 300), (''Etc/GMT+8'', - 480),
             (''Etc/GMT-1'', 60), (''Asia/Tokyo'', 540)] z"

definition refMergeTimeWithDate :: "string \<Rightarrow> string \<Rightarrow> string \<Rightarrow> instant option" where
  "refMergeTimeWithDate dateStr time tzId =
     (case (parseCalendarDate dateStr, parseTimeOfDay time, zoneOffsetMinutes tzId) of
        (Some days, Some mins, Some off) \<Rightarrow> Some ((days * 1440 + mins - off) * 60000)
      | _ \<Rightarrow> None)"

definition refParseISO :: "string \<Rightarrow> instant option" where
  "refParseISO s = map_option (\<lambda>days. days * 86400000) (parseCalendarDate s)"

definition refParseLocalISO :: "string \<Rightarrow> string \<Rightarrow> instant option" where
  "refParseLocalISO s tzId =
     (case (parseCalendarDate s, zoneOffsetMinutes tzId) of
        (Some days, Some off) \<Rightarrow> Some ((days * 1440 - off) * 60000)
      | _ \<Rightarrow> None)"

definition refIsBeforeEpoch :: "instant option \<Rightarrow> bool" where
  "refIsBeforeEpoch x = (case x of None \<Rightarrow> False | Some ms \<Rightarrow> ms < 0)"

definition pad :: "nat \<Rightarrow> int \<Rightarrow> string" where
  "pad n k = replicate (n - length (show_nat (nat k))) CHR ''0'' @ show_nat (nat k)"

definition isoDate :: "instant \<Rightarrow> string" where
  "isoDate ms =
     (case civilFromDays (ms div 86400000) of
        (y, m, d) \<Rightarrow> pad 4 y @ ''-'' @ pad 2 m @ ''-'' @ pad 2 d)"

definition refFormatDate :: "instant option \<Rightarrow> string option" where
  "refFormatDate x = map_option isoDate x"

definition refToUtcISOString :: "instant \<Rightarrow> string" where
  "refToUtcISOString ms =
     (let r = ms mod 86400000
      in isoDate ms @ ''T'' @ pad 2 (r div 3600000) @ '':'' @ pad 2 (r mod 3600000 div 60000)
           @ '':'' @ pad 2 (r mod 60000 div 1000) @ ''.'' @ pad 3 (r mod 1000) @ ''Z'')"

text \<open>The Geo Estimator stays a parameter of the reference environment.\<close>

definition refEnv ::
  "(real \<times> real \<Rightarrow> real \<times> real \<Rightarrow> real) \<Rightarrow> (real \<Rightarrow> int) \<Rightarrow> (instant option) dtEnv" where
  "refEnv distanceFn estimateFn =
     \<lparr> parseISO = refParseISO,
       parseLocalISO = refParseLocalISO,
       isBeforeEpoch = refIsBeforeEpoch,
       formatDate = refFormatDate,
       mergeTimeWithDate = refMergeTimeWithDate,
       toUtcISOString = refToUtcISOString,
       distanceBetween = distanceFn,
       estimateFlightDuration = estimateFn \<rparr>"

section \<open>Example data\<close>

definition jfk :: airport where
  "jfk = \<lparr> airport_id = 1, tz = ''Etc/GMT+5'', lon = - 73.78, lat = 40.64 \<rparr>"

definition lax :: airport where
  "lax = \<lparr> airport_id = 2, tz = ''Etc/GMT+8'', lon = - 118.41, lat = 33.94 \<rparr>"

definition seatOf :: "string \<Rightarrow> createSeat" where
  "seatOf uid =
     \<lparr> userId = Some uid, guestName = None, seat = None, seatNumber = None, seatClass = None \<rparr>"

definition guestSeat :: "string \<Rightarrow> createSeat" where
  "guestSeat name =
     \<lparr> userId = None, guestName = Some name, seat = None, seatNumber = None, seatClass = None \<rparr>"

text \<open>A stored leg from JFK to LAX, as the validator would normalise it.\<close>

definition storedLeg :: "airport option \<Rightarrow> createSeat list \<Rightarrow> createLeg" where
  "storedLeg origin ss =
     \<lparr> leg_from = origin,
       leg_to = Some lax,
       duration = Some 3600,
       departure = Some ''2024-01-01T15:00:00.000Z'',
       arrival = Some ''2024-01-01T16:00:00.000Z'',
       departureScheduled = None,
       arrivalScheduled = None,
       takeoffScheduled = None,
       takeoffActual = None,
       landingScheduled = None,
       landingActual = None,
       departureTerminal = None,
       departureGate = None,
       arrivalTerminal = None,
       arrivalGate = None,
       flightNumber = Some ''AA1'',
       aircraft = None,
       aircraftReg = None,
       airline = None,
       seats = ss \<rparr>"

definition flightOf :: "airport option \<Rightarrow> string option \<Rightarrow> createSeat list \<Rightarrow> createFlight" where
  "flightOf origin remark ss =
     \<lparr> date = ''2024-01-01'', flightReason = None, flightNote = remark,
       legs = [storedLeg origin ss] \<rparr>"

text \<open>A database without flights that knows the two airports and two users.\<close>

definition emptyDb :: db where
  "emptyDb =
     \<lparr> flights = [], nextFlightId = 1, nextLegId = 1, nextSeatId = 1,
       airportIds = [1, 2], aircraftIds = [], airlineIds = [],
       userIds = [''alice'', ''bob''] \<rparr>"

text \<open>
  Leg inputs: a morning departure from JFK with a same-day arrival time at LAX and no
  arrival date; variations of it are built by record update.
\<close>

definition sameDayLeg :: legInput where
  "sameDayLeg =
     \<lparr> in_from = jfk,
       in_to = lax,
       in_departure = Some ''2024-01-01'',
       in_departureTime = Some ''10:00'',
       in_arrival = None,
       in_arrivalTime = Some ''08:00'',
       in_departureScheduled = None,
       in_departureScheduledTime = None,
       in_arrivalScheduled = None,
       in_arrivalScheduledTime = None,
       in_takeoffScheduled = None,
       in_takeoffScheduledTime = None,
       in_takeoffActual = None,
       in_takeoffActualTime = None,
       in_landingScheduled = None,
       in_landingScheduledTime = None,
       in_landingActual = None,
       in_landingActualTime = None,
       in_departureTerminal = None,
       in_departureGate = None,
       in_arrivalTerminal = None,
       in_arrivalGate = None,
       in_flightNumber = Some ''AA1'',
       in_aircraft = None,
       in_aircraftReg = None,
       in_airline = None,
       in_seats = [seatOf ''alice''] \<rparr>"

text \<open>Only the scheduled departure gives the leg its date.\<close>

definition scheduledOnlyLeg :: legInput where
  "scheduledOnlyLeg =
     sameDayLeg \<lparr> in_departure := None, in_departureTime := None,
                  in_departureScheduled := Some ''2024-01-01'',
                  in_departureScheduledTime := Some ''10:00'' \<rparr>"

text \<open>Arrival at 06:00 in Los Angeles is 14:00 UTC, an hour before the departure.\<close>

definition earlyArrivalLeg :: legInput where
  "earlyArrivalLeg = sameDayLeg \<lparr> in_arrival := Some ''2024-01-01'', in_arrivalTime := Some ''06:00'' \<rparr>"

definition earlyArrivalBadLandingLeg :: legInput where
  "earlyArrivalBadLandingLeg =
     earlyArrivalLeg \<lparr> in_landingActual := Some ''2024-01-01'', in_landingActualTime := Some ''xx'' \<rparr>"

text \<open>An arrival on the last day of 1969, local time.\<close>

definition preEpochArrivalLeg :: legInput where
  "preEpochArrivalLeg =
     sameDayLeg \<lparr> in_arrival := Some ''1969-12-31'', in_arrivalTime := Some ''23:00'' \<rparr>"

definition undatedLeg :: legInput where
  "undatedLeg = sameDayLeg \<lparr> in_departure := None, in_departureTime := None \<rparr>"

text \<open>The reference environment with a Geo Estimator that is never consulted.\<close>

definition exampleEnv :: "(instant option) dtEnv" where
  "exampleEnv = refEnv (\<lambda>a b. 0) (\<lambda>km. 0)"

text \<open>A store that only records the calls it receives.\<close>

datatype storeCall = CreateFlightCall createFlight | UpdateFlightCall int createFlight

definition recordingStore :: "flightRow option \<Rightarrow> (storeCall list) store" where
  "recordingStore existing =
     \<lparr> storeGetFlight = (\<lambda>fid calls. existing),
       storeCreateFlight = (\<lambda>data calls. Some (1, calls @ [CreateFlightCall data])),
       storeUpdateFlight = (\<lambda>fid data calls. Some (calls @ [UpdateFlightCall fid data])) \<rparr>"

definition alice :: user where
  "alice = \<lparr> user_id = ''alice'' \<rparr>"

text \<open>The database after Bob has imported his flight from JFK to LAX.\<close>

definition bobsDb :: db where
  "bobsDb = snd (createManyFlights [flightOf (Some jfk) None [seatOf ''bob'']] ''bob'' True emptyDb)"

definition inputOf :: "int option \<Rightarrow> legInput list \<Rightarrow> flightInput" where
  "inputOf fid ls =
     \<lparr> in_id = fid, in_flightReason = Some Leisure, in_note = None, in_legs = ls \<rparr>"


text \<open>Alice's flight, the same flight without a known origin, and the databases after
  Alice has imported each of them once.\<close>

definition alicesFlight :: createFlight where
  "alicesFlight = flightOf (Some jfk) None [seatOf ''alice'']"

definition alicesDb :: db where
  "alicesDb = snd (createManyFlights [alicesFlight] ''alice'' True emptyDb)"

definition unroutedFlight :: createFlight where
  "unroutedFlight = flightOf None None [seatOf ''alice'']"

definition unroutedDb :: db where
  "unroutedDb = snd (createManyFlights [unroutedFlight] ''alice'' True emptyDb)"


text \<open>
  A batch of three: Alice's flight, the same flight without an origin, and a copy of the
  first with a note and a guest instead of Alice.
\<close>

definition mixedBatch :: "createFlight list" where
  "mixedBatch =
     [alicesFlight, unroutedFlight, flightOf (Some jfk) (Some ''again'') [guestSeat ''Ann'']]"


section \<open>Decimal rendering\<close>

lemma show_nat_small: "n < 10 \<Longrightarrow> show_nat n = [digit_char n]"
  by (simp add: show_nat.simps)

lemma show_nat_big: "\<not> n < 10 \<Longrightarrow> show_nat n = show_nat (n div 10) @ [digit_char (n mod 10)]"
  by (subst show_nat.simps) simp

lemma digit_char_code: 
  assumes "n < 10" shows "(of_char (digit_char n) :: nat) = 48 + n"
proof -
  have "n \<in> {0, 1, 2, 3, 4, 5, 6, 7, 8, 9}" using assms by auto
  then show ?thesis by (auto simp: digit_char_def)
qed

lemma digit_char_inj: "m < 10 \<Longrightarrow> n < 10 \<Longrightarrow> digit_char m = digit_char n \<Longrightarrow> m = n"
proof -
  assume a: "m < 10" "n < 10" and e: "digit_char m = digit_char n"
  have "48 + m = (of_char (digit_char m) :: nat)" using a by (simp only: digit_char_code)
  also have "\<dots> = of_char (digit_char n)" using e by (simp only:)
  also have "\<dots> = 48 + n" using a by (simp only: digit_char_code)
  finally show "m = n" by simp
qed

lemma digit_char_not_bar: "n < 10 \<Longrightarrow> digit_char n \<noteq> CHR ''|''"
  using digit_char_code [of n] by auto

lemma show_nat_not_Nil: "show_nat n \<noteq> []"
  by (subst show_nat.simps) simp

lemma show_nat_no_bar: "CHR ''|'' \<notin> set (show_nat n)"
proof (induction n rule: show_nat.induct)
  case (1 n)
  show ?case
  proof (cases "n < 10")
    case True
    then show ?thesis using digit_char_not_bar [of n] by (simp add: show_nat_small)
  next
    case False
    then show ?thesis using 1 digit_char_not_bar [of "n mod 10"] by (simp add: show_nat_big)
  qed
qed

lemma show_nat_inj: "show_nat m = show_nat n \<Longrightarrow> m = n"
proof (induction m arbitrary: n rule: show_nat.induct)
  case (1 m)
  show ?case
  proof (cases "m < 10")
    case True
    note m = this
    show ?thesis
    proof (cases "n < 10")
      case True
      with m 1(2) show ?thesis by (simp add: show_nat_small digit_char_inj)
    next
      case False
      with m 1(2) show_nat_not_Nil [of "n div 10"] show ?thesis
        by (simp add: show_nat_small show_nat_big)
    qed
  next
    case False
    note m = this
    show ?thesis
    proof (cases "n < 10")
      case True
      with m 1(2) show_nat_not_Nil [of "m div 10"] show ?thesis
        by (simp add: show_nat_small show_nat_big)
    next
      case False
      with m 1(2) have a: "show_nat (m div 10) = show_nat (n div 10)"
        and b: "digit_char (m mod 10) = digit_char (n mod 10)"
        by (simp_all add: show_nat_big)
      from 1(1) [OF m a] have "m div 10 = n div 10" .
      moreover from b have "m mod 10 = n mod 10" by (simp add: digit_char_inj)
      ultimately show ?thesis by (metis div_mult_mod_eq)
    qed
  qed
qed


section \<open>Maps that keep the first value of a key\<close>

lemma map_of_setIfAbsent:
  "map_of (setIfAbsent key val xs m) k =
     (case map_of m k of Some v \<Rightarrow> Some v
      | None \<Rightarrow> map_option val (find (\<lambda>x. key x = k) xs))"
proof (induction xs arbitrary: m)
  case Nil
  then show ?case by (simp split: option.splits)
next
  case (Cons x xs)
  show ?case
    by (auto simp: Cons.IH map_of_append split: option.splits)
qed




lemma setIfAbsent_entries:
  "(k, v) \<in> set (setIfAbsent key val xs m) \<Longrightarrow>
     (k, v) \<in> set m \<or> (\<exists>x \<in> set xs. key x = k \<and> val x = v)"
proof (induction xs arbitrary: m)
  case Nil
  then show ?case by simp
next
  case (Cons x xs)
  from Cons.IH [OF Cons.prems [simplified]] show ?case
    by (auto split: if_splits)
qed

lemma filter_key_setIfAbsent:
  "filter (\<lambda>e. fst e = k) (setIfAbsent key val xs m) =
     (if k \<in> fst ` set m then filter (\<lambda>e. fst e = k) m
      else case find (\<lambda>x. key x = k) xs of None \<Rightarrow> [] | Some r \<Rightarrow> [(k, val r)])"
proof (induction xs arbitrary: m)
  case Nil
  have "filter (\<lambda>e. fst e = k) m = []" if "k \<notin> fst ` set m"
    using that by (auto simp: filter_empty_conv)
  then show ?case by simp
next
  case (Cons x xs)
  have none: "filter (\<lambda>e. fst e = k) m = []" if "k \<notin> fst ` set m"
    using that by (auto simp: filter_empty_conv)
  show ?case
  proof (cases "map_of m (key x)")
    case None
    then have nx: "key x \<notin> fst ` set m" by (simp add: map_of_eq_None_iff)
    show ?thesis
    proof (cases "key x = k")
      case True
      with None nx none show ?thesis by (simp add: Cons.IH)
    next
      case False
      with None show ?thesis by (simp add: Cons.IH)
    qed
  next
    case (Some v)
    then have "key x \<in> fst ` set m" using map_of_eq_None_iff [of m "key x"] by auto
    with Some show ?thesis by (auto simp: Cons.IH)
  qed
qed

lemma setIfAbsent_id_keyed:
  assumes "e \<in> set (setIfAbsent key (\<lambda>x. x) xs [])"
  shows "key (snd e) = fst e"
  using setIfAbsent_entries [of "fst e" "snd e" key "\<lambda>x. x" xs "[]"] assms by auto

lemma filter_uniqueFlights:
  "filter (\<lambda>h. signature h = k) (uniqueFlights data) =
     (case find (\<lambda>h. signature h = k) data of None \<Rightarrow> [] | Some r \<Rightarrow> [r])"
proof -
  let ?l = "setIfAbsent signature (\<lambda>f. f) data []"
  have "filter (\<lambda>h. signature h = k) (map snd ?l) = map snd (filter (\<lambda>e. signature (snd e) = k) ?l)"
    by (simp add: filter_map comp_def)
  also have "filter (\<lambda>e. signature (snd e) = k) ?l = filter (\<lambda>e. fst e = k) ?l"
    by (rule filter_cong) (auto simp: setIfAbsent_id_keyed)
  also have "map snd \<dots> = (case find (\<lambda>h. signature h = k) data of None \<Rightarrow> [] | Some r \<Rightarrow> [r])"
    by (simp add: filter_key_setIfAbsent split: option.splits)
  finally show ?thesis by (simp add: uniqueFlights_def)
qed

lemma show_int_of_nat: "show_int (int n) = show_nat n"
  by (simp add: show_int_def)

lemma signature_first_leg:
  assumes "legs f = firstLeg # rest"
  shows "signature f =
           date f @ ''|'' @ js_toString (numOrEmpty (map_option airport_id (leg_from firstLeg))) @ ''|'' @
           js_toString (numOrEmpty (map_option airport_id (leg_to firstLeg))) @ ''|'' @
           strOf (flightNumber firstLeg) @ ''|'' @ strOf (aircraftReg firstLeg) @ ''|'' @
           strOf (departure firstLeg) @ ''|'' @ strOf (arrival firstLeg) @ ''|'' @
           show_nat (length (legs f))"
proof -
  have str: "js_toString (strOrEmpty s) = strOf s" for s
    by (simp add: strOrEmpty_def strOf_def split: option.splits)
  have "signature f =
          js_join ''|''
            [JStr (date f),
             numOrEmpty (map_option airport_id (leg_from firstLeg)),
             numOrEmpty (map_option airport_id (leg_to firstLeg)),
             strOrEmpty (flightNumber firstLeg),
             strOrEmpty (aircraftReg firstLeg),
             strOrEmpty (departure firstLeg),
             strOrEmpty (arrival firstLeg),
             JNum (int (length (firstLeg # rest)))]"
    using assms by (simp add: signature_def Let_def)
  also have "\<dots> = date f @ ''|'' @ js_toString (numOrEmpty (map_option airport_id (leg_from firstLeg))) @ ''|'' @
           js_toString (numOrEmpty (map_option airport_id (leg_to firstLeg))) @ ''|'' @
           strOf (flightNumber firstLeg) @ ''|'' @ strOf (aircraftReg firstLeg) @ ''|'' @
           strOf (departure firstLeg) @ ''|'' @ strOf (arrival firstLeg) @ ''|'' @
           show_nat (length (firstLeg # rest))"
    by (simp add: str show_int_of_nat del: of_nat_Suc list.size length_Cons)
  finally show ?thesis using assms by simp
qed

lemma existingBySig_Some:
  assumes "map_of (existingBySig cands) k = Some i"
  shows "\<exists>ef \<in> set cands. flight_id ef = i \<and> signature (toCreateFlight ef) = k"
proof -
  from assms obtain ef where "find (\<lambda>ef. signature (toCreateFlight ef) = k) cands = Some ef"
    and "flight_id ef = i"
    by (auto simp: existingBySig_def map_of_setIfAbsent)
  then show ?thesis by (auto simp: find_Some_iff)
qed

lemma existingBySig_found:
  assumes "ef \<in> set cands"
  shows "\<exists>ef' \<in> set cands. map_of (existingBySig cands) (signature (toCreateFlight ef))
            = Some (flight_id ef')"
proof -
  from assms obtain r
    where "find (\<lambda>e. signature (toCreateFlight e) = signature (toCreateFlight ef)) cands = Some r"
    by (cases "find (\<lambda>e. signature (toCreateFlight e) = signature (toCreateFlight ef)) cands")
       (auto simp: find_None_iff)
  moreover from this have "r \<in> set cands" by (auto simp: find_Some_iff)
  ultimately show ?thesis by (auto simp: existingBySig_def map_of_setIfAbsent)
qed

section \<open>The leg validator: what a successful validation yields\<close>

lemma resolveInstants_departure_arrival:
  assumes "resolveInstants env leg i = Inr t"
  shows "resolveDeparture env leg i = Inr (i_departure t)"
    and "resolveArrival env leg i = Inr (i_arrival t)"
  using assms
  by (auto simp: resolveInstants_def Let_def split: if_splits sum.splits)

lemma validateAndProcessLeg_Inr:
  assumes "validateAndProcessLeg env leg i = Inr v"
  obtains t where "resolveInstants env leg i = Inr t"
    and "\<not> arrivalPrecedesDeparture t"
    and "duration v = computeDuration env leg (i_departure t) (i_arrival t)"
    and "departure v = map_option (toUtcISOString env) (i_departure t)"
    and "arrival v = map_option (toUtcISOString env) (i_arrival t)"
  using assms
  by (auto simp: validateAndProcessLeg_def split: sum.splits if_splits)

lemma differenceInSeconds_ordered:
  "\<not> isBefore a d \<Longrightarrow> differenceInSeconds a d = (a - d) div 1000"
  by (simp add: isBefore_def differenceInSeconds_def Let_def)

text \<open>
  C5. For every successfully validated leg: if both the departure and the arrival instant
  resolved, the duration of the normalised leg is arrival minus departure in seconds
  (the instants are in milliseconds, and arrival does not precede departure); otherwise,
  if the ids of origin and destination differ, it is the duration the Geo Estimator gives
  for the great-circle distance between them in kilometres; otherwise it is null.
\<close>

theorem duration_of_validated_leg:
  assumes "validateAndProcessLeg env leg i = Inr v"
  shows "\<exists>t. resolveInstants env leg i = Inr t
           \<and> departure v = map_option (toUtcISOString env) (i_departure t)
           \<and> arrival v = map_option (toUtcISOString env) (i_arrival t)
           \<and> duration v =
               (case (i_departure t, i_arrival t) of
                  (Some d, Some a) \<Rightarrow> Some ((a - d) div 1000)
                | _ \<Rightarrow>
                  if airport_id (in_from leg) \<noteq> airport_id (in_to leg) then
                    Some (estimateFlightDuration env
                            (distanceBetween env (lon (in_from leg), lat (in_from leg))
                                                 (lon (in_to leg), lat (in_to leg)) / 1000))
                  else None)"
proof -
  from assms obtain t where t: "resolveInstants env leg i = Inr t"
    and ord: "\<not> arrivalPrecedesDeparture t"
    and dur: "duration v = computeDuration env leg (i_departure t) (i_arrival t)"
    and dep: "departure v = map_option (toUtcISOString env) (i_departure t)"
    and arr: "arrival v = map_option (toUtcISOString env) (i_arrival t)"
    by (rule validateAndProcessLeg_Inr)
  have "computeDuration env leg (i_departure t) (i_arrival t) =
          (case (i_departure t, i_arrival t) of
             (Some d, Some a) \<Rightarrow> Some ((a - d) div 1000)
           | _ \<Rightarrow>
             if airport_id (in_from leg) \<noteq> airport_id (in_to leg) then
               Some (estimateFlightDuration env
                       (distanceBetween env (lon (in_from leg), lat (in_from leg))
                                            (lon (in_to leg), lat (in_to leg)) / 1000))
             else None)"
    using ord
    by (auto simp: computeDuration_def arrivalPrecedesDeparture_def differenceInSeconds_ordered
          split: option.splits)
  with t dur dep arr show ?thesis by auto
qed

theorem duration_of_validated_leg_witness:
  "map_sum id duration (validateAndProcessLeg exampleEnv sameDayLeg 0) = Inr (Some 3600)
   \<and> map_sum id i_departure (resolveInstants exampleEnv sameDayLeg 0) = Inr (Some 1704121200000)
   \<and> map_sum id i_arrival (resolveInstants exampleEnv sameDayLeg 0) = Inr (Some 1704124800000)"
proof -
  have v: "validateAndProcessLeg exampleEnv sameDayLeg 0 =
             Inr (projr (validateAndProcessLeg exampleEnv sameDayLeg 0))"
    by code_simp
  have t: "resolveInstants exampleEnv sameDayLeg 0 =
             Inr \<lparr> i_departure = Some 1704121200000, i_departureScheduled = None,
                   i_takeoffScheduled = None, i_takeoffActual = None,
                   i_arrival = Some 1704124800000, i_arrivalScheduled = None,
                   i_landingScheduled = None, i_landingActual = None \<rparr>"
    by code_simp
  from duration_of_validated_leg [OF v] t
  have "duration (projr (validateAndProcessLeg exampleEnv sameDayLeg 0)) = Some 3600"
    by simp
  with v t show ?thesis
    by (metis legInstants.select_convs(1) legInstants.select_convs(5) map_sum.simps(2))
qed

section \<open>Arrival before departure\<close>

text \<open>
  C6, as amended. For every leg input of which every date and time field is accepted
  (lines 68 to 173 of the validator report no error) and both the departure and the
  arrival instant resolve: validation fails with the message \<open>Arrival must be after
  departure\<close> at path \<open>legs[i].arrival\<close> exactly when the arrival instant is strictly
  before the departure instant, and it succeeds exactly when arrival does not precede
  departure.
\<close>

theorem arrival_before_departure_rejected:
  assumes "resolveInstants env leg i = Inr t"
    and "i_departure t = Some d"
    and "i_arrival t = Some a"
  shows "(validateAndProcessLeg env leg i =
            Inl (PathError (''legs['' @ show_nat i @ ''].arrival'')
                   ''Arrival must be after departure'')) = (a < d)
         \<and> (\<exists>v. validateAndProcessLeg env leg i = Inr v) = (d \<le> a)"
  using assms
  by (auto simp: validateAndProcessLeg_def arrivalPrecedesDeparture_def isBefore_def
        pathError_def)

theorem arrival_before_departure_rejected_witness:
  "map_sum id i_departure (resolveInstants exampleEnv earlyArrivalLeg 2) = Inr (Some 1704121200000)
   \<and> map_sum id i_arrival (resolveInstants exampleEnv earlyArrivalLeg 2) = Inr (Some 1704117600000)
   \<and> validateAndProcessLeg exampleEnv earlyArrivalLeg 2 =
       Inl (PathError ''legs[2].arrival'' ''Arrival must be after departure'')"
proof -
  have t: "resolveInstants exampleEnv earlyArrivalLeg 2 =
             Inr \<lparr> i_departure = Some 1704121200000, i_departureScheduled = None,
                   i_takeoffScheduled = None, i_takeoffActual = None,
                   i_arrival = Some 1704117600000, i_arrivalScheduled = None,
                   i_landingScheduled = None, i_landingActual = None \<rparr>"
    by code_simp
  have two: "show_nat 2 = ''2''"
    by (simp add: show_nat_small digit_char_def)
  from arrival_before_departure_rejected [OF t, of 1704121200000 1704117600000]
  have "validateAndProcessLeg exampleEnv earlyArrivalLeg 2 =
          Inl (PathError ''legs[2].arrival'' ''Arrival must be after departure'')"
    by (simp add: two)
  with t show ?thesis by simp
qed

text \<open>
  The claim as stated fails. Both instants of the first leg resolve and arrival is before
  departure, and yet the error is the one of the malformed landing time, which the
  validator checks first. The same happens to the second leg, whose arrival date is
  before 1970: it is rejected as too far in the past.
\<close>

theorem arrival_before_departure_counterexample:
  "resolveDeparture exampleEnv earlyArrivalBadLandingLeg 2 = Inr (Some 1704121200000)
   \<and> resolveArrival exampleEnv earlyArrivalBadLandingLeg 2 = Inr (Some 1704117600000)
   \<and> (1704117600000 :: int) < 1704121200000
   \<and> validateAndProcessLeg exampleEnv earlyArrivalBadLandingLeg 2 =
       Inl (PathError ''legs[2].landingActualTime'' ''Invalid time format'')
   \<and> validateAndProcessLeg exampleEnv earlyArrivalBadLandingLeg 2 \<noteq>
       Inl (PathError ''legs[2].arrival'' ''Arrival must be after departure'')
   \<and> resolveDeparture exampleEnv preEpochArrivalLeg 2 = Inr (Some 1704121200000)
   \<and> resolveArrival exampleEnv preEpochArrivalLeg 2 = Inr (Some 25200000)
   \<and> (25200000 :: int) < 1704121200000
   \<and> validateAndProcessLeg exampleEnv preEpochArrivalLeg 2 =
       Inl (PathError ''legs[2].arrival'' ''Too far in the past'')"
proof -
  have a: "resolveDeparture exampleEnv earlyArrivalBadLandingLeg 2 = Inr (Some 1704121200000)"
    by code_simp
  have b: "resolveArrival exampleEnv earlyArrivalBadLandingLeg 2 = Inr (Some 1704117600000)"
    by code_simp
  have c: "validateAndProcessLeg exampleEnv earlyArrivalBadLandingLeg 2 =
             Inl (PathError ''legs[2].landingActualTime'' ''Invalid time format'')"
    by code_simp
  have d: "resolveDeparture exampleEnv preEpochArrivalLeg 2 = Inr (Some 1704121200000)"
    by code_simp
  have e: "resolveArrival exampleEnv preEpochArrivalLeg 2 = Inr (Some 25200000)"
    by code_simp
  have f: "validateAndProcessLeg exampleEnv preEpochArrivalLeg 2 =
             Inl (PathError ''legs[2].arrival'' ''Too far in the past'')"
    by code_simp
  from a b c d e f show ?thesis by simp
qed

section \<open>The default of the arrival date\<close>

text \<open>
  C8, as amended. For every leg input where an arrival time is present but the arrival
  date is absent: if the leg has an actual departure date (\<open>departure\<close>), the arrival date
  defaults to it, so the arrival instant is produced by merging the departure date with
  the arrival time in the zone of the destination airport (a merge that fails is an
  invalid time format at \<open>arrivalTime\<close>); if it has none, as when only
  \<open>departureScheduled\<close> supplies the leg's date, no arrival instant is produced. Whenever
  the leg validates, the arrival of the normalised leg is that instant in UTC, or null.
\<close>

theorem arrival_date_defaults_to_departure:
  assumes "truthy (in_arrivalTime leg)"
    and "\<not> truthy (in_arrival leg)"
  shows "resolveArrival env leg i =
           (if truthy (in_departure leg) then
              (case mergeTimeWithDate env (strOf (in_departure leg)) (strOf (in_arrivalTime leg))
                      (tz (in_to leg)) of
                 Some a \<Rightarrow> Inr (Some a)
               | None \<Rightarrow> Inl (PathError (''legs['' @ show_nat i @ ''].arrivalTime'')
                                ''Invalid time format''))
            else Inr None)
         \<and> (validateAndProcessLeg env leg i = Inr v \<longrightarrow>
              (truthy (in_departure leg) \<longrightarrow>
                 (\<exists>a. mergeTimeWithDate env (strOf (in_departure leg))
                         (strOf (in_arrivalTime leg)) (tz (in_to leg)) = Some a
                      \<and> arrival v = Some (toUtcISOString env a)))
              \<and> (\<not> truthy (in_departure leg) \<longrightarrow> arrival v = None))"
proof
  from assms have e: "effectiveArrival leg = in_departure leg"
    by (simp add: effectiveArrival_def)
  show r: "resolveArrival env leg i =
           (if truthy (in_departure leg) then
              (case mergeTimeWithDate env (strOf (in_departure leg)) (strOf (in_arrivalTime leg))
                      (tz (in_to leg)) of
                 Some a \<Rightarrow> Inr (Some a)
               | None \<Rightarrow> Inl (PathError (''legs['' @ show_nat i @ ''].arrivalTime'')
                                ''Invalid time format''))
            else Inr None)"
    using assms(1) by (simp add: resolveArrival_def e pathError_def split: option.splits)
  show "validateAndProcessLeg env leg i = Inr v \<longrightarrow>
              (truthy (in_departure leg) \<longrightarrow>
                 (\<exists>a. mergeTimeWithDate env (strOf (in_departure leg))
                         (strOf (in_arrivalTime leg)) (tz (in_to leg)) = Some a
                      \<and> arrival v = Some (toUtcISOString env a)))
              \<and> (\<not> truthy (in_departure leg) \<longrightarrow> arrival v = None)"
  proof
    assume "validateAndProcessLeg env leg i = Inr v"
    then obtain t where t: "resolveInstants env leg i = Inr t"
      and arr: "arrival v = map_option (toUtcISOString env) (i_arrival t)"
      by (rule validateAndProcessLeg_Inr)
    from resolveInstants_departure_arrival(2) [OF t]
    have ra: "resolveArrival env leg i = Inr (i_arrival t)" .
    show "(truthy (in_departure leg) \<longrightarrow>
                 (\<exists>a. mergeTimeWithDate env (strOf (in_departure leg))
                         (strOf (in_arrivalTime leg)) (tz (in_to leg)) = Some a
                      \<and> arrival v = Some (toUtcISOString env a)))
              \<and> (\<not> truthy (in_departure leg) \<longrightarrow> arrival v = None)"
    proof (cases "truthy (in_departure leg)")
      case True
      with r ra obtain a
        where "mergeTimeWithDate env (strOf (in_departure leg)) (strOf (in_arrivalTime leg))
                 (tz (in_to leg)) = Some a"
          and "i_arrival t = Some a"
        by (auto split: option.splits)
      with arr True show ?thesis by simp
    next
      case False
      with r ra have "i_arrival t = None" by simp
      with arr False show ?thesis by simp
    qed
  qed
qed

theorem arrival_date_defaults_to_departure_witness:
  "truthy (in_arrivalTime sameDayLeg) \<and> \<not> truthy (in_arrival sameDayLeg)
   \<and> truthy (in_departure sameDayLeg)
   \<and> mergeTimeWithDate exampleEnv ''2024-01-01'' ''08:00'' ''Etc/GMT+8'' = Some 1704124800000
   \<and> map_sum id arrival (validateAndProcessLeg exampleEnv sameDayLeg 0)
       = Inr (Some ''2024-01-01T16:00:00.000Z'')"
proof -
  have v: "validateAndProcessLeg exampleEnv sameDayLeg 0 =
             Inr (projr (validateAndProcessLeg exampleEnv sameDayLeg 0))"
    by code_simp
  have h1: "truthy (in_arrivalTime sameDayLeg)"
    by (simp add: sameDayLeg_def truthy_def)
  have h2: "\<not> truthy (in_arrival sameDayLeg)"
    by (simp add: sameDayLeg_def truthy_def)
  have h3: "truthy (in_departure sameDayLeg)"
    by (simp add: sameDayLeg_def truthy_def)
  have m: "mergeTimeWithDate exampleEnv ''2024-01-01'' ''08:00'' ''Etc/GMT+8'' = Some 1704124800000"
    by code_simp
  have s: "toUtcISOString exampleEnv 1704124800000 = ''2024-01-01T16:00:00.000Z''"
    by code_simp
  have f: "strOf (in_departure sameDayLeg) = ''2024-01-01''"
      "strOf (in_arrivalTime sameDayLeg) = ''08:00''" "tz (in_to sameDayLeg) = ''Etc/GMT+8''"
    by (simp_all add: sameDayLeg_def strOf_def lax_def)
  from arrival_date_defaults_to_departure
         [OF h1 h2, of exampleEnv 0 "projr (validateAndProcessLeg exampleEnv sameDayLeg 0)"] v h3
  have "arrival (projr (validateAndProcessLeg exampleEnv sameDayLeg 0))
          = Some ''2024-01-01T16:00:00.000Z''"
    by (simp add: f m s)
  with v have "map_sum id arrival (validateAndProcessLeg exampleEnv sameDayLeg 0)
                 = Inr (Some ''2024-01-01T16:00:00.000Z'')"
    by (metis map_sum.simps(2))
  with h1 h2 h3 m show ?thesis by (intro conjI)
qed

text \<open>
  The claim as stated fails where only the scheduled departure supplies the date: the
  leg validates, merging that date with the arrival time would give an instant, but the
  normalised leg has no arrival.
\<close>

theorem arrival_date_default_counterexample:
  "truthy (in_arrivalTime scheduledOnlyLeg) \<and> \<not> truthy (in_arrival scheduledOnlyLeg)
   \<and> in_departure scheduledOnlyLeg = None
   \<and> primaryDepartureDate scheduledOnlyLeg = ''2024-01-01''
   \<and> mergeTimeWithDate exampleEnv (primaryDepartureDate scheduledOnlyLeg)
        (strOf (in_arrivalTime scheduledOnlyLeg)) (tz (in_to scheduledOnlyLeg))
       = Some 1704124800000
   \<and> map_sum id arrival (validateAndProcessLeg exampleEnv scheduledOnlyLeg 0) = Inr None"
proof -
  have a: "truthy (in_arrivalTime scheduledOnlyLeg)" "\<not> truthy (in_arrival scheduledOnlyLeg)"
      "in_departure scheduledOnlyLeg = None"
      "primaryDepartureDate scheduledOnlyLeg = ''2024-01-01''"
    by (simp_all add: scheduledOnlyLeg_def sameDayLeg_def truthy_def primaryDepartureDate_def
          strOf_def)
  have b: "mergeTimeWithDate exampleEnv (primaryDepartureDate scheduledOnlyLeg)
             (strOf (in_arrivalTime scheduledOnlyLeg)) (tz (in_to scheduledOnlyLeg))
           = Some 1704124800000"
    by code_simp
  have c: "map_sum id arrival (validateAndProcessLeg exampleEnv scheduledOnlyLeg 0) = Inr None"
    by code_simp
  from a b c show ?thesis by (intro conjI)
qed

section \<open>The flight assembler: validation comes before every write\<close>

lemma parseDateTimeField_Inl:
  "parseDateTimeField env i d t z p = Inl e \<Longrightarrow> e = pathError i p ''Invalid time format''"
  by (auto simp: parseDateTimeField_def split: if_splits option.splits)

lemma resolveDeparture_Inl:
  "resolveDeparture env leg i = Inl e \<Longrightarrow> e = pathError i ''departureTime'' ''Invalid time format''"
  by (auto simp: resolveDeparture_def split: if_splits option.splits)

lemma resolveArrival_Inl:
  "resolveArrival env leg i = Inl e \<Longrightarrow> e = pathError i ''arrivalTime'' ''Invalid time format''"
  by (auto simp: resolveArrival_def split: if_splits option.splits)

lemma resolveInstants_Inl:
  assumes "resolveInstants env leg i = Inl e"
  shows "\<exists>p m. e = pathError i p m"
  using assms
  by (auto simp: resolveInstants_def Let_def split: if_splits sum.splits
        dest!: parseDateTimeField_Inl resolveDeparture_Inl resolveArrival_Inl)

lemma validateAndProcessLeg_Inl:
  assumes "validateAndProcessLeg env leg i = Inl e"
  shows "\<exists>p m. e = pathError i p m"
  using assms resolveInstants_Inl [of env leg i e]
  by (auto simp: validateAndProcessLeg_def split: sum.splits if_splits)

lemma processLegs_first_failure:
  assumes "i < length ls"
    and "validateAndProcessLeg env (ls ! i) (k + i) = Inl e"
    and "\<forall>j<i. \<exists>v. validateAndProcessLeg env (ls ! j) (k + j) = Inr v"
  shows "processLegs env ls k acc = Inl e"
  using assms
proof (induction ls arbitrary: i k acc)
  case Nil
  then show ?case by simp
next
  case (Cons l ls)
  show ?case
  proof (cases i)
    case 0
    with Cons.prems(2) show ?thesis by simp
  next
    case (Suc i')
    from Cons.prems(3) Suc obtain v where v: "validateAndProcessLeg env l k = Inr v"
      by fastforce
    have a: "i' < length ls" using Cons.prems(1) Suc by simp
    have b: "validateAndProcessLeg env (ls ! i') (Suc k + i') = Inl e"
      using Cons.prems(2) Suc by simp
    have c: "\<forall>j<i'. \<exists>v. validateAndProcessLeg env (ls ! j) (Suc k + j) = Inr v"
    proof (intro allI impI)
      fix j assume "j < i'"
      then have "Suc j < i" using Suc by simp
      with Cons.prems(3) have "\<exists>v. validateAndProcessLeg env ((l # ls) ! Suc j) (k + Suc j) = Inr v"
        by blast
      then show "\<exists>v. validateAndProcessLeg env (ls ! j) (Suc k + j) = Inr v" by simp
    qed
    from Cons.IH [OF a b c] v show ?thesis by simp
  qed
qed

lemma processLegs_all_valid:
  assumes "\<forall>j<length ls. \<exists>v. validateAndProcessLeg env (ls ! j) (k + j) = Inr v"
  shows "\<exists>ps. processLegs env ls k acc = Inr ps"
  using assms
proof (induction ls arbitrary: k acc)
  case Nil
  then show ?case by simp
next
  case (Cons l ls)
  from Cons.prems obtain v where v: "validateAndProcessLeg env l k = Inr v"
    by fastforce
  have "\<forall>j<length ls. \<exists>v. validateAndProcessLeg env (ls ! j) (Suc k + j) = Inr v"
  proof (intro allI impI)
    fix j assume "j < length ls"
    then have "Suc j < length (l # ls)" by simp
    with Cons.prems have "\<exists>v. validateAndProcessLeg env ((l # ls) ! Suc j) (k + Suc j) = Inr v"
      by blast
    then show "\<exists>v. validateAndProcessLeg env (ls ! j) (Suc k + j) = Inr v" by simp
  qed
  from Cons.IH [OF this] v show ?case by simp
qed

text \<open>
  C3. The legs of a flight input are validated in order. If the leg at index \<open>i\<close> fails
  validation and every leg before it validates, \<open>validateAndSaveFlight\<close> returns the error
  of that leg, which is scoped to a field of \<open>legs[i]\<close>, and leaves the store as it was.
  The store is arbitrary here, so this holds in particular for a store that records
  every \<open>createFlight\<close> and \<open>updateFlight\<close> it receives: no write is issued.
\<close>

theorem first_failing_leg_stops_save:
  assumes "i < length (in_legs data)"
    and "validateAndProcessLeg env (in_legs data ! i) i = Inl e"
    and "\<forall>j<i. \<exists>v. validateAndProcessLeg env (in_legs data ! j) j = Inr v"
  shows "validateAndSaveFlight env st usr data s = (Inr e, s)
         \<and> (\<exists>p m. e = PathError (''legs['' @ show_nat i @ ''].'' @ p) m)"
proof -
  from processLegs_first_failure [of i "in_legs data" env 0 e "[]"] assms
  have "processLegs env (in_legs data) 0 [] = Inl e" by simp
  then have "validateAndSaveFlight env st usr data s = (Inr e, s)"
    by (simp add: validateAndSaveFlight_def)
  moreover from validateAndProcessLeg_Inl [OF assms(2)]
  have "\<exists>p m. e = PathError (''legs['' @ show_nat i @ ''].'' @ p) m"
    by (simp add: pathError_def)
  ultimately show ?thesis by simp
qed

lemma sameDayLeg_validates:
  "validateAndProcessLeg exampleEnv sameDayLeg 0 =
     Inr (projr (validateAndProcessLeg exampleEnv sameDayLeg 0))"
  by code_simp

theorem first_failing_leg_stops_save_witness:
  "validateAndProcessLeg exampleEnv ([sameDayLeg, undatedLeg] ! 1) 1
     = Inl (PathError ''legs[1].departure'' ''Select a departure date'')
   \<and> validateAndSaveFlight exampleEnv (recordingStore None) alice
        (inputOf None [sameDayLeg, undatedLeg]) []
       = (Inr (PathError ''legs[1].departure'' ''Select a departure date''), [])"
proof -
  let ?data = "inputOf None [sameDayLeg, undatedLeg]"
  have l: "in_legs ?data = [sameDayLeg, undatedLeg]"
    by (simp add: inputOf_def)
  have h1: "1 < length (in_legs ?data)"
    by (simp add: l)
  have h2: "validateAndProcessLeg exampleEnv (in_legs ?data ! 1) 1
              = Inl (PathError ''legs[1].departure'' ''Select a departure date'')"
    unfolding l by code_simp
  have h3: "\<forall>j<1. \<exists>v. validateAndProcessLeg exampleEnv (in_legs ?data ! j) j = Inr v"
    using sameDayLeg_validates by (auto simp: l)
  from first_failing_leg_stops_save [OF h1 h2 h3, of "recordingStore None" alice "[]"] h2 l
  show ?thesis by simp
qed

section \<open>Updating a flight needs a seat on it\<close>

text \<open>
  C9, as amended. For every update (the input carries a non-zero id) by a user who holds
  no seat on any leg of the stored flight, or whose flight does not exist:
  \<open>validateAndSaveFlight\<close> leaves the store as it was, so the flight, its legs and its
  seats are unchanged; and if the input has at least one leg, all its legs validate and
  its date can be formatted, the result is the ownership error with status 403.
\<close>

theorem update_without_seat_is_refused:
  assumes "in_id data = Some fid"
    and "fid \<noteq> 0"
    and "case storeGetFlight st fid s of
           None \<Rightarrow> True
         | Some flight \<Rightarrow> \<not> holdsSeat (user_id usr) flight"
  shows "snd (validateAndSaveFlight env st usr data s) = s
         \<and> (in_legs data = firstLeg # rest
              \<and> (\<forall>j<length (in_legs data).
                    \<exists>v. validateAndProcessLeg env (in_legs data ! j) j = Inr v)
              \<and> formatDate env (parseISO env (primaryDepartureDate firstLeg)) = Some formatted
            \<longrightarrow> fst (validateAndSaveFlight env st usr data s)
                  = Inr (HttpError 403
                      ''Flight not found or you do not have a seat on this flight''))"
proof
  from assms(3) have u: "saveUpdate st usr fid vals s =
      (Inr (HttpError 403 ''Flight not found or you do not have a seat on this flight''), s)"
    for vals
    by (auto simp: saveUpdate_def split: option.splits)
  from assms(1,2) show "snd (validateAndSaveFlight env st usr data s) = s"
    by (auto simp: validateAndSaveFlight_def Let_def u
          split: sum.splits list.splits option.splits)
next
  show "in_legs data = firstLeg # rest
          \<and> (\<forall>j<length (in_legs data).
                \<exists>v. validateAndProcessLeg env (in_legs data ! j) j = Inr v)
          \<and> formatDate env (parseISO env (primaryDepartureDate firstLeg)) = Some formatted
        \<longrightarrow> fst (validateAndSaveFlight env st usr data s)
              = Inr (HttpError 403
                  ''Flight not found or you do not have a seat on this flight'')"
  proof
    assume a: "in_legs data = firstLeg # rest
          \<and> (\<forall>j<length (in_legs data).
                \<exists>v. validateAndProcessLeg env (in_legs data ! j) j = Inr v)
          \<and> formatDate env (parseISO env (primaryDepartureDate firstLeg)) = Some formatted"
    from a processLegs_all_valid [of "in_legs data" env 0 "[]"]
    obtain ps where ps: "processLegs env (in_legs data) 0 [] = Inr ps" by auto
    from assms(3) have u: "saveUpdate st usr fid vals s =
        (Inr (HttpError 403 ''Flight not found or you do not have a seat on this flight''), s)"
      for vals
      by (auto simp: saveUpdate_def split: option.splits)
    from a assms(1,2) ps
    show "fst (validateAndSaveFlight env st usr data s)
              = Inr (HttpError 403
                  ''Flight not found or you do not have a seat on this flight'')"
      by (simp add: validateAndSaveFlight_def Let_def u)
  qed
qed

lemma bobsDb_flight_1:
  "map_option (holdsSeat ''alice'') (storeGetFlight dbStore 1 bobsDb) = Some False"
  by code_simp

theorem update_without_seat_is_refused_witness:
  "in_id (inputOf (Some 1) [sameDayLeg]) = Some 1
   \<and> map_option (holdsSeat (user_id alice)) (storeGetFlight dbStore 1 bobsDb) = Some False
   \<and> validateAndSaveFlight exampleEnv dbStore alice (inputOf (Some 1) [sameDayLeg]) bobsDb
       = (Inr (HttpError 403 ''Flight not found or you do not have a seat on this flight''),
          bobsDb)"
proof -
  let ?data = "inputOf (Some 1) [sameDayLeg]"
  have h1: "in_id ?data = Some 1" and l: "in_legs ?data = sameDayLeg # []"
    by (simp_all add: inputOf_def)
  have h2: "(1 :: int) \<noteq> 0" by simp
  have g: "map_option (holdsSeat (user_id alice)) (storeGetFlight dbStore 1 bobsDb) = Some False"
    using bobsDb_flight_1 by (simp add: alice_def)
  then have h3: "case storeGetFlight dbStore 1 bobsDb of
                   None \<Rightarrow> True
                 | Some flight \<Rightarrow> \<not> holdsSeat (user_id alice) flight"
    by (auto split: option.splits)
  have v: "\<forall>j<length (in_legs ?data).
             \<exists>v. validateAndProcessLeg exampleEnv (in_legs ?data ! j) j = Inr v"
    using sameDayLeg_validates by (auto simp: l)
  have f: "formatDate exampleEnv (parseISO exampleEnv (primaryDepartureDate sameDayLeg))
             = Some ''2024-01-01''"
    by code_simp
  from update_without_seat_is_refused [OF h1 h2 h3, of exampleEnv sameDayLeg "[]" "''2024-01-01''"]
    l v f
  have "snd (validateAndSaveFlight exampleEnv dbStore alice ?data bobsDb) = bobsDb"
    and "fst (validateAndSaveFlight exampleEnv dbStore alice ?data bobsDb)
           = Inr (HttpError 403 ''Flight not found or you do not have a seat on this flight'')"
    by simp_all
  then have "validateAndSaveFlight exampleEnv dbStore alice ?data bobsDb
       = (Inr (HttpError 403 ''Flight not found or you do not have a seat on this flight''),
          bobsDb)"
    by (simp add: prod_eq_iff)
  with h1 g show ?thesis by (intro conjI)
qed

text \<open>
  The claim as stated fails when a leg of the update does not validate: Alice holds no
  seat on Bob's flight, but her update of it is answered with the error of the leg, not
  with status 403.
\<close>

theorem update_without_seat_counterexample:
  "in_id (inputOf (Some 1) [undatedLeg]) = Some 1
   \<and> map_option (holdsSeat (user_id alice)) (storeGetFlight dbStore 1 bobsDb) = Some False
   \<and> fst (validateAndSaveFlight exampleEnv dbStore alice (inputOf (Some 1) [undatedLeg]) bobsDb)
       = Inr (PathError ''legs[0].departure'' ''Select a departure date'')
   \<and> fst (validateAndSaveFlight exampleEnv dbStore alice (inputOf (Some 1) [undatedLeg]) bobsDb)
       \<noteq> Inr (HttpError 403 ''Flight not found or you do not have a seat on this flight'')"
proof -
  have a: "in_id (inputOf (Some 1) [undatedLeg]) = Some 1"
    by (simp add: inputOf_def)
  have b: "map_option (holdsSeat (user_id alice)) (storeGetFlight dbStore 1 bobsDb) = Some False"
    using bobsDb_flight_1 by (simp add: alice_def)
  have u: "validateAndProcessLeg exampleEnv undatedLeg 0
             = Inl (PathError ''legs[0].departure'' ''Select a departure date'')"
    by code_simp
  have c: "fst (validateAndSaveFlight exampleEnv dbStore alice (inputOf (Some 1) [undatedLeg]) bobsDb)
             = Inr (PathError ''legs[0].departure'' ''Select a departure date'')"
    by (simp add: validateAndSaveFlight_def inputOf_def u)
  from a b c show ?thesis by simp
qed
section \<open>Rows and the flights they were made from\<close>


lemma leg_fields_extend:
  "leg_from (legData.extend (legData.truncate l) x) = leg_from l"
  "leg_to (legData.extend (legData.truncate l) x) = leg_to l"
  "flightNumber (legData.extend (legData.truncate l) x) = flightNumber l"
  "aircraftReg (legData.extend (legData.truncate l) x) = aircraftReg l"
  "departure (legData.extend (legData.truncate l) x) = departure l"
  "arrival (legData.extend (legData.truncate l) x) = arrival l"
  by (simp_all add: legData.defs)





lemma toCreateFlight_legs: "legs (toCreateFlight ef) = map toCreateLeg (legRows ef)"
  by (simp add: toCreateFlight_def)






section \<open>Import without deduplication\<close>






section \<open>Keys are split at their first bar\<close>

lemma digit_char_not_minus: "n < 10 \<Longrightarrow> digit_char n \<noteq> CHR ''-''"
  using digit_char_code [of n] by auto

lemma show_nat_no_minus: "CHR ''-'' \<notin> set (show_nat n)"
proof (induction n rule: show_nat.induct)
  case (1 n)
  show ?case
  proof (cases "n < 10")
    case True
    then show ?thesis using digit_char_not_minus [of n] by (simp add: show_nat_small)
  next
    case False
    then show ?thesis using 1 digit_char_not_minus [of "n mod 10"] by (simp add: show_nat_big)
  qed
qed

lemma show_int_no_bar: "CHR ''|'' \<notin> set (show_int k)"
  by (simp add: show_int_def show_nat_no_bar)

lemma show_int_not_Nil: "show_int k \<noteq> []"
  by (simp add: show_int_def show_nat_not_Nil)

lemma show_int_inj:
  assumes "show_int j = show_int k"
  shows "j = k"
proof -
  have neg: "hd (show_int x) = CHR ''-''" if "x < 0" for x
    using that by (simp add: show_int_def)
  have pos: "hd (show_int x) \<noteq> CHR ''-''" if "\<not> x < 0" for x
  proof -
    from that have "show_int x = show_nat (nat x)" by (simp add: show_int_def)
    moreover have "hd (show_nat (nat x)) \<in> set (show_nat (nat x))"
      by (simp add: show_nat_not_Nil)
    ultimately show ?thesis using show_nat_no_minus [of "nat x"] by metis
  qed
  show ?thesis
  proof (cases "j < 0")
    case True
    with neg [of j] pos [of k] assms have k: "k < 0" by metis
    with True assms have "show_nat (nat (- j)) = show_nat (nat (- k))"
      by (simp add: show_int_def)
    then have "nat (- j) = nat (- k)" by (rule show_nat_inj)
    with True k show ?thesis by simp
  next
    case False
    with neg [of k] pos [of j] assms have k: "\<not> k < 0" by metis
    with False assms have "show_nat (nat j) = show_nat (nat k)"
      by (simp add: show_int_def)
    then have "nat j = nat k" by (rule show_nat_inj)
    with False k show ?thesis by simp
  qed
qed

lemma split_at_bar:
  assumes "a @ CHR ''|'' # r = b @ CHR ''|'' # r'"
    and "CHR ''|'' \<notin> set a"
    and "CHR ''|'' \<notin> set b"
  shows "a = b \<and> r = r'"
proof -
  have tw: "takeWhile (\<lambda>c. c \<noteq> CHR ''|'') (x @ CHR ''|'' # y) = x"
    if "CHR ''|'' \<notin> set x" for x y
    using that by (induction x) auto
  have "takeWhile (\<lambda>c. c \<noteq> CHR ''|'') (a @ CHR ''|'' # r) = a"
    using assms(2) by (rule tw)
  moreover have "takeWhile (\<lambda>c. c \<noteq> CHR ''|'') (b @ CHR ''|'' # r') = b"
    using assms(3) by (rule tw)
  ultimately have "a = b" using assms(1) by simp
  with assms(1) show ?thesis by simp
qed





section \<open>The seat insert\<close>

lemma truncate_numberSeats: "map seatInsert.truncate (numberSeats sid rows) = rows"
  by (induction rows arbitrary: sid) (simp_all add: seatInsert.defs)





section \<open>The seat-attachment phase\<close>





section \<open>The candidates of the matcher are flights of the importing user\<close>

lemma existingCandidates_subset:
  assumes "ef \<in> set (existingCandidates d uid us)"
  shows "ef \<in> set (flights d)" and "holdsSeat uid ef"
  using assms
  by (auto simp: existingCandidates_def listFlightsQuery_def Let_def split: if_splits)

lemma userSeatsQuery_member:
  assumes "ef \<in> set (flights d)" and "flight_id ef \<in> set ids" and "holdsSeat uid ef"
  shows "flight_id ef \<in> set (userSeatsQuery d uid ids)"
proof -
  from assms(3) obtain leg s where "leg \<in> set (legRows ef)" "s \<in> set (seatRows leg)"
    "userId s = Some uid"
    by (auto simp: holdsSeat_def list_ex_iff)
  with assms(1,2) show ?thesis
    by (auto simp: userSeatsQuery_def intro!: bexI [of _ ef] bexI [of _ leg] image_eqI [of _ _ s])
qed

lemma candidate_in_userSeatByFlight:
  assumes "ef \<in> set (existingCandidates d uid us)"
  shows "flight_id ef \<in> set (userSeatByFlight d uid (existingCandidates d uid us))"
proof -
  let ?cands = "existingCandidates d uid us"
  from assms have m: "flight_id ef \<in> set (remdups (map flight_id ?cands))" by simp
  then have ne: "remdups (map flight_id ?cands) \<noteq> []" by auto
  note a = existingCandidates_subset(1) [OF assms]
  note b = existingCandidates_subset(2) [OF assms]
  from userSeatsQuery_member [OF a m b] ne
  show ?thesis by (simp add: userSeatByFlight_def Let_def)
qed

text \<open>
  When every id the signature map can return is among the user's seats, the loop never
  queues a seat: a flight is either skipped or inserted.
\<close>

lemma partitionFlights_no_attach:
  assumes "\<And>k i. map_of ebs k = Some i \<Longrightarrow> i \<in> set usf"
  shows "partitionFlights ebs usf efs us ins att =
           (ins @ filter (\<lambda>f. case map_of ebs (signature f) of None \<Rightarrow> True | Some i \<Rightarrow> i = 0) us,
            att)"
proof (induction us arbitrary: ins)
  case Nil
  then show ?case by simp
next
  case (Cons f us)
  show ?case
  proof (cases "map_of ebs (signature f)")
    case None
    then show ?thesis by (simp add: Cons.IH)
  next
    case (Some i)
    with assms have "i \<in> set usf" by blast
    with Some show ?thesis by (simp add: Cons.IH)
  qed
qed




section \<open>Equal signatures mean equal date and route\<close>

lemma numOrEmpty_text_no_bar: "CHR ''|'' \<notin> set (js_toString (numOrEmpty x))"
  by (cases x) (simp_all add: numOrEmpty_def show_int_no_bar)

lemma numOrEmpty_text_inj:
  assumes "js_toString (numOrEmpty x) = js_toString (numOrEmpty y)"
  shows "x = y"
proof (cases x)
  case None
  show ?thesis
  proof (cases y)
    case None
    with \<open>x = None\<close> show ?thesis by simp
  next
    case (Some k)
    with \<open>x = None\<close> assms have "show_int k = []" by (simp add: numOrEmpty_def)
    with show_int_not_Nil [of k] show ?thesis by simp
  qed
next
  case (Some j)
  show ?thesis
  proof (cases y)
    case None
    with Some assms have "show_int j = []" by (simp add: numOrEmpty_def)
    with show_int_not_Nil [of j] show ?thesis by simp
  next
    case (Some k)
    with \<open>x = Some j\<close> assms have "show_int j = show_int k" by (simp add: numOrEmpty_def)
    then have "j = k" by (rule show_int_inj)
    with Some \<open>x = Some j\<close> show ?thesis by simp
  qed
qed

lemma signature_route:
  assumes "legs f \<noteq> []"
  shows "\<exists>r. signature f =
           date f @ CHR ''|'' # js_toString (numOrEmpty (firstLegFromId (legs f)))
             @ CHR ''|'' # js_toString (numOrEmpty (firstLegToId (legs f))) @ CHR ''|'' # r"
proof -
  from assms obtain l ls where l: "legs f = l # ls" by (cases "legs f") auto
  from signature_first_leg [OF l] show ?thesis
    by (simp add: l firstLegFromId_def firstLegToId_def)
qed

lemma signature_no_legs: "legs f = [] \<Longrightarrow> signature f = date f"
  by (simp add: signature_def)

lemma signature_eq_legs:
  assumes "signature f = signature g" and "legs f \<noteq> []" and "plainDate (date g)"
  shows "legs g \<noteq> []"
proof
  assume "legs g = []"
  with assms(1) have "signature f = date g" by (simp add: signature_no_legs)
  moreover from signature_route [OF assms(2)] have "CHR ''|'' \<in> set (signature f)" by auto
  ultimately show False using assms(3) by (simp add: plainDate_def)
qed

lemma signature_eq_route:
  assumes "signature f = signature g"
    and "legs f \<noteq> []" and "legs g \<noteq> []"
    and "plainDate (date f)" and "plainDate (date g)"
  shows "date f = date g"
    and "firstLegFromId (legs f) = firstLegFromId (legs g)"
    and "firstLegToId (legs f) = firstLegToId (legs g)"
proof -
  from signature_route [OF assms(2)] obtain r where
    f: "signature f =
           date f @ CHR ''|'' # js_toString (numOrEmpty (firstLegFromId (legs f)))
             @ CHR ''|'' # js_toString (numOrEmpty (firstLegToId (legs f))) @ CHR ''|'' # r"
    by blast
  from signature_route [OF assms(3)] obtain r' where
    g: "signature g =
           date g @ CHR ''|'' # js_toString (numOrEmpty (firstLegFromId (legs g)))
             @ CHR ''|'' # js_toString (numOrEmpty (firstLegToId (legs g))) @ CHR ''|'' # r'"
    by blast
  from assms(1) f g have e:
    "date f @ CHR ''|'' # js_toString (numOrEmpty (firstLegFromId (legs f)))
             @ CHR ''|'' # js_toString (numOrEmpty (firstLegToId (legs f))) @ CHR ''|'' # r
     = date g @ CHR ''|'' # js_toString (numOrEmpty (firstLegFromId (legs g)))
             @ CHR ''|'' # js_toString (numOrEmpty (firstLegToId (legs g))) @ CHR ''|'' # r'"
    by simp
  from assms(4,5) have nb: "CHR ''|'' \<notin> set (date f)" "CHR ''|'' \<notin> set (date g)"
    by (simp_all add: plainDate_def)
  from split_at_bar [OF e nb] have d: "date f = date g"
    and e2: "js_toString (numOrEmpty (firstLegFromId (legs f)))
             @ CHR ''|'' # js_toString (numOrEmpty (firstLegToId (legs f))) @ CHR ''|'' # r
     = js_toString (numOrEmpty (firstLegFromId (legs g)))
             @ CHR ''|'' # js_toString (numOrEmpty (firstLegToId (legs g))) @ CHR ''|'' # r'"
    by simp_all
  from split_at_bar [OF e2 numOrEmpty_text_no_bar numOrEmpty_text_no_bar]
  have a: "js_toString (numOrEmpty (firstLegFromId (legs f)))
             = js_toString (numOrEmpty (firstLegFromId (legs g)))"
    and e3: "js_toString (numOrEmpty (firstLegToId (legs f))) @ CHR ''|'' # r
             = js_toString (numOrEmpty (firstLegToId (legs g))) @ CHR ''|'' # r'"
    by simp_all
  from split_at_bar [OF e3 numOrEmpty_text_no_bar numOrEmpty_text_no_bar]
  have b: "js_toString (numOrEmpty (firstLegToId (legs f)))
             = js_toString (numOrEmpty (firstLegToId (legs g)))"
    by simp
  show "date f = date g" by (rule d)
  show "firstLegFromId (legs f) = firstLegFromId (legs g)"
    using a by (rule numOrEmpty_text_inj)
  show "firstLegToId (legs f) = firstLegToId (legs g)"
    using b by (rule numOrEmpty_text_inj)
qed

lemma routedFlight_legs: "routedFlight f \<Longrightarrow> legs f \<noteq> []"
  by (auto simp: routedFlight_def firstLegFromId_def truthyNum_def)

lemma toCreateFlight_first_leg:
  "firstLegFromId (legs (toCreateFlight ef)) = firstLegFromId (legRows ef)"
  "firstLegToId (legs (toCreateFlight ef)) = firstLegToId (legRows ef)"
  "date (toCreateFlight ef) = date ef"
  by (simp_all add: toCreateFlight_def firstLegFromId_def firstLegToId_def toCreateLeg_def
        leg_fields_extend split: list.splits)

section \<open>A flight the user already has is discarded\<close>

lemma representative_in_batch:
  assumes "f \<in> set data"
  obtains g where "g \<in> set (uniqueFlights data)" and "g \<in> set data"
    and "signature g = signature f"
proof -
  from assms obtain r where r: "find (\<lambda>h. signature h = signature f) data = Some r"
    by (cases "find (\<lambda>h. signature h = signature f) data") (auto simp: find_None_iff)
  then have "filter (\<lambda>h. signature h = signature f) (uniqueFlights data) = [r]"
    by (simp add: filter_uniqueFlights)
  then have "r \<in> set (filter (\<lambda>h. signature h = signature f) (uniqueFlights data))"
    by simp
  then have "r \<in> set (uniqueFlights data)" "signature r = signature f" by auto
  moreover from r have "r \<in> set data" by (auto simp: find_Some_iff)
  ultimately show ?thesis using that by blast
qed

lemma uniqueFlights_subset: "set (uniqueFlights data) \<subseteq> set data"
proof
  fix r assume "r \<in> set (uniqueFlights data)"
  then obtain k where "(k, r) \<in> set (setIfAbsent signature (\<lambda>f. f) data [])"
    by (auto simp: uniqueFlights_def)
  from setIfAbsent_entries [OF this] show "r \<in> set data" by auto
qed

lemma own_flight_is_candidate:
  assumes wf: "wfDb d"
    and g: "g \<in> set us" "plainDate (date g)" "routedFlight g"
    and ef: "ef \<in> set (flights d)" "holdsSeat uid ef"
      "signature (toCreateFlight ef) = signature g"
  shows "ef \<in> set (existingCandidates d uid us)"
proof -
  from wf ef(1) have pd: "plainDate (date (toCreateFlight ef))"
    by (auto simp: wfDb_def list_all_iff toCreateFlight_first_leg)
  note lg = routedFlight_legs [OF g(3)]
  from signature_eq_legs [OF ef(3) [symmetric] lg pd]
  have le: "legs (toCreateFlight ef) \<noteq> []" .
  note r = signature_eq_route [OF ef(3) le lg pd g(2)]
  from r(1) have d: "date ef = date g" by (simp add: toCreateFlight_first_leg)
  from r(2) have a: "firstLegFromId (legRows ef) = firstLegFromId (legs g)"
    by (simp add: toCreateFlight_first_leg)
  from r(3) have b: "firstLegToId (legRows ef) = firstLegToId (legs g)"
    by (simp add: toCreateFlight_first_leg)
  from le obtain row rows where rows: "legRows ef = row # rows"
    by (cases "legRows ef") (auto simp: toCreateFlight_legs)
  from g(3) obtain x y where x: "firstLegFromId (legs g) = Some x" "x \<noteq> 0"
    and y: "firstLegToId (legs g) = Some y" "y \<noteq> 0"
    by (auto simp: routedFlight_def truthyNum_def split: option.splits)
  define froms where "froms = filter truthyNum (map (\<lambda>f. firstLegFromId (legs f)) us)"
  define tos where "tos = filter truthyNum (map (\<lambda>f. firstLegToId (legs f)) us)"
  have fr: "Some x \<in> set froms"
    using g(1) x by (auto simp: froms_def truthyNum_def intro!: image_eqI [of _ _ g])
  have to: "Some y \<in> set tos"
    using g(1) y by (auto simp: tos_def truthyNum_def intro!: image_eqI [of _ _ g])
  have dt: "date ef \<in> set (map date us)"
    using g(1) d by auto
  from a x rows have "map_option airport_id (leg_from row) = Some x"
    by (simp only: firstLegFromId_def list.case)
  then have ox: "orMinusOne (map_option airport_id (leg_from row)) = x"
    by (simp only: orMinusOne_def option.case)
  from b y rows have "map_option airport_id (leg_to row) = Some y"
    by (simp only: firstLegToId_def list.case)
  then have oy: "orMinusOne (map_option airport_id (leg_to row)) = y"
    by (simp only: orMinusOne_def option.case)
  have ne: "froms \<noteq> []" "tos \<noteq> []" "map date us \<noteq> []"
    using fr to dt by auto
  have q: "ef \<in> set (listFlightsQuery d uid)"
    using ef(1,2) by (simp add: listFlightsQuery_def)
  have c: "existingCandidates d uid us =
             filter (\<lambda>ef. case legRows ef of
                            [] \<Rightarrow> False
                          | firstLeg # _ \<Rightarrow>
                              Some (orMinusOne (map_option airport_id (leg_from firstLeg))) \<in> set froms
                              \<and> Some (orMinusOne (map_option airport_id (leg_to firstLeg))) \<in> set tos)
               (filter (\<lambda>ef. date ef \<in> set (map date us)) (listFlightsQuery d uid))"
    using ne unfolding froms_def tos_def existingCandidates_def Let_def by simp
  have p: "(case legRows ef of
              [] \<Rightarrow> False
            | firstLeg # _ \<Rightarrow>
                Some (orMinusOne (map_option airport_id (leg_from firstLeg))) \<in> set froms
                \<and> Some (orMinusOne (map_option airport_id (leg_to firstLeg))) \<in> set tos)"
    using fr to by (simp add: rows ox oy)
  from q dt p show ?thesis
    unfolding c by (simp only: set_filter mem_Collect_eq simp_thms)
qed

lemma own_flight_is_matched:
  assumes wf: "wfDb d"
    and dates: "\<forall>g \<in> set data. plainDate (date g)"
    and f: "f \<in> set data" "routedFlight f"
    and ef: "ef \<in> set (flights d)" "holdsSeat uid ef"
      "signature (toCreateFlight ef) = signature f"
  shows "\<exists>i. map_of (existingBySig (existingCandidates d uid (uniqueFlights data))) (signature f)
              = Some i \<and> i \<noteq> 0"
proof -
  let ?cands = "existingCandidates d uid (uniqueFlights data)"
  from f(1) obtain g where g: "g \<in> set (uniqueFlights data)" "g \<in> set data"
    "signature g = signature f"
    by (rule representative_in_batch)
  from dates f(1) g(2) have pf: "plainDate (date f)" and pg: "plainDate (date g)" by auto
  note lf = routedFlight_legs [OF f(2)]
  from signature_eq_legs [OF g(3) [symmetric] lf pg] have lg: "legs g \<noteq> []" .
  note r = signature_eq_route [OF g(3) lg lf pg pf]
  from f(2) r(2,3) have rg: "routedFlight g" by (simp add: routedFlight_def)
  from ef(3) g(3) have "signature (toCreateFlight ef) = signature g" by simp
  from own_flight_is_candidate [OF wf g(1) pg rg ef(1,2) this]
  have "ef \<in> set ?cands" .
  from existingBySig_found [OF this] obtain ef'
    where ef': "ef' \<in> set ?cands"
      "map_of (existingBySig ?cands) (signature (toCreateFlight ef)) = Some (flight_id ef')"
    by blast
  from existingCandidates_subset(1) [OF ef'(1)] wf have "flight_id ef' \<noteq> 0"
    by (auto simp: wfDb_def list_all_iff)
  with ef'(2) ef(3) show ?thesis by simp
qed










section \<open>A flight that exists for another user\<close>

text \<open>
  C2 does not hold of the code. Bob's flight is stored; Alice, who holds no seat on it,
  imports a flight with the same signature. The matcher looks for existing flights among
  Alice's own flights only, so it finds no match: it inserts a second flight and attaches
  no seat, where the claim asks for no insertion and one attached seat.
\<close>

theorem import_for_other_user_inserts_duplicate:
  "signature (toCreateFlight (hd (flights bobsDb))) = signature alicesFlight
   \<and> \<not> holdsSeat ''alice'' (hd (flights bobsDb))
   \<and> fst (createManyFlights [alicesFlight] ''alice'' True bobsDb)
       = Inr \<lparr> insertedFlights = 1, attachedSeats = 0 \<rparr>
   \<and> map flight_id (flights (snd (createManyFlights [alicesFlight] ''alice'' True bobsDb)))
       = [1, 2]
   \<and> userSeatsQuery (snd (createManyFlights [alicesFlight] ''alice'' True bobsDb))
         ''alice'' [1, 2] = [2]"
proof -
  have a: "signature (toCreateFlight (hd (flights bobsDb))) = signature alicesFlight"
    by code_simp
  have b: "\<not> holdsSeat ''alice'' (hd (flights bobsDb))" by code_simp
  have c: "fst (createManyFlights [alicesFlight] ''alice'' True bobsDb)
             = Inr \<lparr> insertedFlights = 1, attachedSeats = 0 \<rparr>"
    by code_simp
  have d: "map flight_id (flights (snd (createManyFlights [alicesFlight] ''alice'' True bobsDb)))
             = [1, 2]"
    by code_simp
  have e: "userSeatsQuery (snd (createManyFlights [alicesFlight] ''alice'' True bobsDb))
             ''alice'' [1, 2] = [2]"
    by code_simp
  from a b c d e show ?thesis by (intro conjI)
qed

section \<open>The signature and what the matcher treats as the same flight\<close>

text \<open>The airports of a candidate are airports of the batch.\<close>

lemma candidate_is_routed:
  assumes ef: "ef \<in> set (existingCandidates d uid us)"
    and ids: "\<forall>h \<in> set us. firstLegFromId (legs h) \<noteq> Some (- 1)
                \<and> firstLegToId (legs h) \<noteq> Some (- 1)"
  shows "routedFlight (toCreateFlight ef)"
proof -
  define froms where "froms = filter truthyNum (map (\<lambda>f. firstLegFromId (legs f)) us)"
  define tos where "tos = filter truthyNum (map (\<lambda>f. firstLegToId (legs f)) us)"
  from ef obtain row rows where rows: "legRows ef = row # rows"
    and fr: "Some (orMinusOne (map_option airport_id (leg_from row))) \<in> set froms"
    and to: "Some (orMinusOne (map_option airport_id (leg_to row))) \<in> set tos"
    unfolding existingCandidates_def Let_def froms_def [symmetric] tos_def [symmetric]
    by (auto split: if_splits list.splits)
  from fr ids have "orMinusOne (map_option airport_id (leg_from row)) \<noteq> - 1"
    "orMinusOne (map_option airport_id (leg_from row)) \<noteq> 0"
    by (auto simp: froms_def truthyNum_def)
  then have a: "truthyNum (map_option airport_id (leg_from row))"
    by (cases "leg_from row") (simp_all add: orMinusOne_def truthyNum_def)
  from to ids have "orMinusOne (map_option airport_id (leg_to row)) \<noteq> - 1"
    "orMinusOne (map_option airport_id (leg_to row)) \<noteq> 0"
    by (auto simp: tos_def truthyNum_def)
  then have b: "truthyNum (map_option airport_id (leg_to row))"
    by (cases "leg_to row") (simp_all add: orMinusOne_def truthyNum_def)
  show ?thesis
    unfolding routedFlight_def toCreateFlight_first_leg
    by (simp add: firstLegFromId_def firstLegToId_def rows a b)
qed

text \<open>The loop of the matcher, for flights of the batch: what is inserted.\<close>

lemma partitionFlights_of_candidates:
  "partitionFlights (existingBySig (existingCandidates d uid us))
     (userSeatByFlight d uid (existingCandidates d uid us))
     (existingCandidates d uid us) us [] []
   = (filter (\<lambda>f. case map_of (existingBySig (existingCandidates d uid us)) (signature f) of
                    None \<Rightarrow> True | Some i \<Rightarrow> i = 0) us, [])"
proof -
  let ?cands = "existingCandidates d uid us"
  have seat: "i \<in> set (userSeatByFlight d uid ?cands)"
    if "map_of (existingBySig ?cands) k = Some i" for k i
  proof -
    from existingBySig_Some [OF that] obtain ef where "ef \<in> set ?cands" "flight_id ef = i"
      by blast
    with candidate_in_userSeatByFlight [of ef d uid us] show ?thesis by simp
  qed
  from partitionFlights_no_attach [of "existingBySig ?cands" "userSeatByFlight d uid ?cands"
         ?cands us "[]" "[]", OF seat]
  show ?thesis by simp
qed

lemma routed_flight_matched_iff:
  assumes wf: "wfDb d"
    and dates: "\<forall>h \<in> set data. plainDate (date h)"
    and g: "g \<in> set (uniqueFlights data)" "routedFlight g"
  shows "g \<in> set (fst (partitionFlights
                 (existingBySig (existingCandidates d uid (uniqueFlights data)))
                 (userSeatByFlight d uid (existingCandidates d uid (uniqueFlights data)))
                 (existingCandidates d uid (uniqueFlights data))
                 (uniqueFlights data) [] []))
         \<longleftrightarrow> \<not> (\<exists>ef \<in> set (flights d). holdsSeat uid ef
                     \<and> signature (toCreateFlight ef) = signature g)"
proof -
  let ?cands = "existingCandidates d uid (uniqueFlights data)"
  let ?P = "\<lambda>f. case map_of (existingBySig ?cands) (signature f) of
                  None \<Rightarrow> True | Some i \<Rightarrow> i = 0"
  from g(1) uniqueFlights_subset have gd: "g \<in> set data" by blast
  have "\<not> ?P g \<longleftrightarrow> (\<exists>ef \<in> set (flights d). holdsSeat uid ef
                     \<and> signature (toCreateFlight ef) = signature g)"
  proof
    assume "\<not> ?P g"
    then obtain i where "map_of (existingBySig ?cands) (signature g) = Some i"
      by (auto split: option.splits)
    from existingBySig_Some [OF this] obtain ef
      where ef: "ef \<in> set ?cands" "signature (toCreateFlight ef) = signature g"
      by blast
    note a = existingCandidates_subset(1) [OF ef(1)]
    note b = existingCandidates_subset(2) [OF ef(1)]
    from a b ef(2) show "\<exists>ef \<in> set (flights d). holdsSeat uid ef
                     \<and> signature (toCreateFlight ef) = signature g"
      by blast
  next
    assume "\<exists>ef \<in> set (flights d). holdsSeat uid ef
                     \<and> signature (toCreateFlight ef) = signature g"
    then obtain ef where "ef \<in> set (flights d)" "holdsSeat uid ef"
      "signature (toCreateFlight ef) = signature g"
      by blast
    from own_flight_is_matched [OF wf dates gd g(2) this] show "\<not> ?P g" by auto
  qed
  with g(1) show ?thesis
    unfolding partitionFlights_of_candidates fst_conv set_filter mem_Collect_eq by blast
qed

lemma unrouted_flight_is_inserted:
  assumes wf: "wfDb d"
    and dates: "\<forall>h \<in> set data. plainDate (date h)"
    and g: "g \<in> set (uniqueFlights data)" "\<not> routedFlight g"
    and ids: "\<forall>h \<in> set data. firstLegFromId (legs h) \<noteq> Some (- 1)
                \<and> firstLegToId (legs h) \<noteq> Some (- 1)"
  shows "g \<in> set (fst (partitionFlights
                 (existingBySig (existingCandidates d uid (uniqueFlights data)))
                 (userSeatByFlight d uid (existingCandidates d uid (uniqueFlights data)))
                 (existingCandidates d uid (uniqueFlights data))
                 (uniqueFlights data) [] []))"
proof -
  let ?cands = "existingCandidates d uid (uniqueFlights data)"
  let ?P = "\<lambda>f. case map_of (existingBySig ?cands) (signature f) of
                  None \<Rightarrow> True | Some i \<Rightarrow> i = 0"
  from g(1) uniqueFlights_subset have gd: "g \<in> set data" by blast
  with dates have pg: "plainDate (date g)" by blast
  from ids uniqueFlights_subset [of data]
  have ids': "\<forall>h \<in> set (uniqueFlights data). firstLegFromId (legs h) \<noteq> Some (- 1)
                \<and> firstLegToId (legs h) \<noteq> Some (- 1)"
    by blast
  have "?P g"
  proof (rule ccontr)
    assume "\<not> ?P g"
    then obtain i where "map_of (existingBySig ?cands) (signature g) = Some i"
      by (auto split: option.splits)
    from existingBySig_Some [OF this] obtain ef
      where ef: "ef \<in> set ?cands" "signature (toCreateFlight ef) = signature g"
      by blast
    from candidate_is_routed [OF ef(1) ids'] have re: "routedFlight (toCreateFlight ef)" .
    note le = routedFlight_legs [OF re]
    from existingCandidates_subset(1) [OF ef(1)] wf
    have pe: "plainDate (date (toCreateFlight ef))"
      by (auto simp: wfDb_def list_all_iff toCreateFlight_first_leg)
    from signature_eq_legs [OF ef(2) le pg] have lg: "legs g \<noteq> []" .
    note r = signature_eq_route [OF ef(2) le lg pe pg]
    from re r(2,3) have "routedFlight g" by (simp add: routedFlight_def)
    with g(2) show False by simp
  qed
  with g(1) show ?thesis
    by (simp only: partitionFlights_of_candidates fst_conv set_filter mem_Collect_eq simp_thms)
qed

text \<open>
  C4, as amended. For a flight with at least one leg the signature is the flight's date,
  the first leg's from-airport id, to-airport id, flight number, aircraft registration,
  departure and arrival, and the number of legs, joined by \<open>|\<close>, where an absent
  component is the empty string. Two flights of one batch are the same flight to the
  matcher exactly when these strings are equal: among the unique flights of a batch
  exactly one carries the signature of a given flight of the batch, namely the first
  flight of the batch with that signature. Against the database (positive flight ids,
  plain calendar dates) the strings decide for the flights of the importing user and the
  routed flights of the batch only: a unique flight of the batch whose first leg has both
  airports is left out of the insert exactly when the importing user holds a seat on an
  existing flight with an equal signature, and a unique flight of the batch whose first
  leg lacks an airport is inserted whatever the database holds (no airport of the batch
  having the id -1, which the matcher uses for a missing airport).
\<close>

theorem signature_joins_first_leg_fields:
  assumes "legs f = firstLeg # rest" and "g \<in> set data"
    and "wfDb d" and "\<forall>h \<in> set data. plainDate (date h)"
  shows "signature f =
           date f @ ''|'' @
           (case leg_from firstLeg of None \<Rightarrow> [] | Some a \<Rightarrow> show_int (airport_id a)) @ ''|'' @
           (case leg_to firstLeg of None \<Rightarrow> [] | Some a \<Rightarrow> show_int (airport_id a)) @ ''|'' @
           strOf (flightNumber firstLeg) @ ''|'' @
           strOf (aircraftReg firstLeg) @ ''|'' @
           strOf (departure firstLeg) @ ''|'' @
           strOf (arrival firstLeg) @ ''|'' @
           show_nat (length (legs f))
         \<and> (\<exists>r. find (\<lambda>h. signature h = signature g) data = Some r
                \<and> filter (\<lambda>h. signature h = signature g) (uniqueFlights data) = [r])
         \<and> (g \<in> set (uniqueFlights data) \<and> routedFlight g \<longrightarrow>
              (g \<in> set (fst (partitionFlights
                     (existingBySig (existingCandidates d uid (uniqueFlights data)))
                     (userSeatByFlight d uid (existingCandidates d uid (uniqueFlights data)))
                     (existingCandidates d uid (uniqueFlights data))
                     (uniqueFlights data) [] []))
               \<longleftrightarrow> \<not> (\<exists>ef \<in> set (flights d). holdsSeat uid ef
                           \<and> signature (toCreateFlight ef) = signature g)))
         \<and> (g \<in> set (uniqueFlights data) \<and> \<not> routedFlight g
              \<and> (\<forall>h \<in> set data. firstLegFromId (legs h) \<noteq> Some (- 1)
                     \<and> firstLegToId (legs h) \<noteq> Some (- 1)) \<longrightarrow>
              g \<in> set (fst (partitionFlights
                     (existingBySig (existingCandidates d uid (uniqueFlights data)))
                     (userSeatByFlight d uid (existingCandidates d uid (uniqueFlights data)))
                     (existingCandidates d uid (uniqueFlights data))
                     (uniqueFlights data) [] [])))"
proof (intro conjI impI)
  show "signature f =
           date f @ ''|'' @
           (case leg_from firstLeg of None \<Rightarrow> [] | Some a \<Rightarrow> show_int (airport_id a)) @ ''|'' @
           (case leg_to firstLeg of None \<Rightarrow> [] | Some a \<Rightarrow> show_int (airport_id a)) @ ''|'' @
           strOf (flightNumber firstLeg) @ ''|'' @
           strOf (aircraftReg firstLeg) @ ''|'' @
           strOf (departure firstLeg) @ ''|'' @
           strOf (arrival firstLeg) @ ''|'' @
           show_nat (length (legs f))"
    by (simp add: signature_first_leg [OF assms(1)] numOrEmpty_def split: option.splits)
  from assms(2) obtain r where "find (\<lambda>h. signature h = signature g) data = Some r"
    by (cases "find (\<lambda>h. signature h = signature g) data") (auto simp: find_None_iff)
  then show "\<exists>r. find (\<lambda>h. signature h = signature g) data = Some r
                \<and> filter (\<lambda>h. signature h = signature g) (uniqueFlights data) = [r]"
    by (simp add: filter_uniqueFlights)
  show "g \<in> set (fst (partitionFlights
                 (existingBySig (existingCandidates d uid (uniqueFlights data)))
                 (userSeatByFlight d uid (existingCandidates d uid (uniqueFlights data)))
                 (existingCandidates d uid (uniqueFlights data))
                 (uniqueFlights data) [] []))
         \<longleftrightarrow> \<not> (\<exists>ef \<in> set (flights d). holdsSeat uid ef
                     \<and> signature (toCreateFlight ef) = signature g)"
    if "g \<in> set (uniqueFlights data) \<and> routedFlight g"
    using routed_flight_matched_iff [OF assms(3,4), of g uid] that by blast
  show "g \<in> set (fst (partitionFlights
                 (existingBySig (existingCandidates d uid (uniqueFlights data)))
                 (userSeatByFlight d uid (existingCandidates d uid (uniqueFlights data)))
                 (existingCandidates d uid (uniqueFlights data))
                 (uniqueFlights data) [] []))"
    if "g \<in> set (uniqueFlights data) \<and> \<not> routedFlight g
              \<and> (\<forall>h \<in> set data. firstLegFromId (legs h) \<noteq> Some (- 1)
                     \<and> firstLegToId (legs h) \<noteq> Some (- 1))"
    using unrouted_flight_is_inserted [OF assms(3,4), of g uid] that by blast
qed

text \<open>
  Alice, who has her flight from JFK in the database, imports it again together with the
  same flight without an origin and a copy of the first with a note and a guest: the copy
  falls to the first flight within the batch, the first flight is matched with the stored
  one, and the flight without an origin is queued for insertion.
\<close>

theorem signature_joins_first_leg_fields_witness:
  "legs alicesFlight = storedLeg (Some jfk) [seatOf ''alice''] # []
   \<and> wfDb alicesDb
   \<and> signature alicesFlight
       = ''2024-01-01|1|2|AA1||2024-01-01T15:00:00.000Z|2024-01-01T16:00:00.000Z|1''
   \<and> filter (\<lambda>h. signature h
                    = signature (flightOf (Some jfk) (Some ''again'') [guestSeat ''Ann'']))
        (uniqueFlights mixedBatch)
       = [alicesFlight]
   \<and> routedFlight alicesFlight
   \<and> holdsSeat ''alice'' (hd (flights alicesDb))
   \<and> signature (toCreateFlight (hd (flights alicesDb))) = signature alicesFlight
   \<and> \<not> routedFlight unroutedFlight
   \<and> fst (partitionFlights
            (existingBySig (existingCandidates alicesDb ''alice'' (uniqueFlights mixedBatch)))
            (userSeatByFlight alicesDb ''alice''
               (existingCandidates alicesDb ''alice'' (uniqueFlights mixedBatch)))
            (existingCandidates alicesDb ''alice'' (uniqueFlights mixedBatch))
            (uniqueFlights mixedBatch) [] [])
       = [unroutedFlight]"
proof -
  let ?a = "alicesFlight"
  let ?b = "unroutedFlight"
  let ?g = "flightOf (Some jfk) (Some ''again'') [guestSeat ''Ann'']"
  let ?E = "existingCandidates alicesDb ''alice'' (uniqueFlights mixedBatch)"
  let ?ins = "fst (partitionFlights (existingBySig ?E) (userSeatByFlight alicesDb ''alice'' ?E) ?E
                     (uniqueFlights mixedBatch) [] [])"
  have h1: "legs ?a = storedLeg (Some jfk) [seatOf ''alice''] # []"
    by (simp add: alicesFlight_def flightOf_def)
  have g1: "?g \<in> set mixedBatch" and g2: "?a \<in> set mixedBatch" and g3: "?b \<in> set mixedBatch"
    by (simp_all add: mixedBatch_def)
  have h3: "wfDb alicesDb" by code_simp
  have h4: "\<forall>h \<in> set mixedBatch. plainDate (date h)" by code_simp
  note w = signature_joins_first_leg_fields [OF h1 g1 h3 h4, of "''alice''"]
  note wa = signature_joins_first_leg_fields [OF h1 g2 h3 h4, of "''alice''"]
  note wb = signature_joins_first_leg_fields [OF h1 g3 h3 h4, of "''alice''"]
  have c1: "signature ?a
              = ''2024-01-01|1|2|AA1||2024-01-01T15:00:00.000Z|2024-01-01T16:00:00.000Z|1''"
    using w
    by (simp add: alicesFlight_def flightOf_def storedLeg_def jfk_def lax_def strOf_def
          show_int_def show_nat_small digit_char_def)
  have c2: "find (\<lambda>h. signature h = signature ?g) mixedBatch = Some ?a"
    by code_simp
  from w obtain r
    where r1: "find (\<lambda>h. signature h = signature ?g) mixedBatch = Some r"
      and r2: "filter (\<lambda>h. signature h = signature ?g) (uniqueFlights mixedBatch) = [r]"
    by blast
  from r1 c2 have "r = ?a" by (simp only: option.inject)
  with r2 have c3: "filter (\<lambda>h. signature h = signature ?g) (uniqueFlights mixedBatch) = [?a]"
    by (simp only:)
  have u: "uniqueFlights mixedBatch = [?a, ?b]" by code_simp
  have ra: "routedFlight ?a" by code_simp
  have rb: "\<not> routedFlight ?b" by code_simp
  have e1: "hd (flights alicesDb) \<in> set (flights alicesDb)" by code_simp
  have e2: "holdsSeat ''alice'' (hd (flights alicesDb))" by code_simp
  have e3: "signature (toCreateFlight (hd (flights alicesDb))) = signature ?a" by code_simp
  have ids: "\<forall>h \<in> set mixedBatch. firstLegFromId (legs h) \<noteq> Some (- 1)
                     \<and> firstLegToId (legs h) \<noteq> Some (- 1)"
    by code_simp
  have ua: "?a \<in> set (uniqueFlights mixedBatch)" and ub: "?b \<in> set (uniqueFlights mixedBatch)"
    by (simp_all only: u) simp_all
  from wa ua ra e1 e2 e3 have na: "?a \<notin> set ?ins" by blast
  from wb ub rb ids have ib: "?b \<in> set ?ins" by blast
  obtain P where "?ins = filter P (uniqueFlights mixedBatch)"
    unfolding partitionFlights_of_candidates fst_conv by blast
  then have ys: "?ins = filter P [?a, ?b]" by (simp only: u)
  from na ib have c4: "?ins = [?b]"
    unfolding ys by (auto split: if_splits)
  from h1 h3 c1 c3 ra e2 e3 rb c4 show ?thesis by (intro conjI)
qed

text \<open>
  The claim as stated fails against the database: Alice holds a seat on a stored flight
  without an origin, she imports a flight with the same string, and the matcher finds no
  flight under that string and queues the incoming flight for insertion.
\<close>

theorem equal_signatures_not_matched_counterexample:
  "signature (toCreateFlight (hd (flights unroutedDb))) = signature unroutedFlight
   \<and> holdsSeat ''alice'' (hd (flights unroutedDb))
   \<and> map_of (existingBySig (existingCandidates unroutedDb ''alice'' (uniqueFlights [unroutedFlight])))
        (signature unroutedFlight) = None
   \<and> partitionFlights
        (existingBySig (existingCandidates unroutedDb ''alice'' (uniqueFlights [unroutedFlight])))
        (userSeatByFlight unroutedDb ''alice''
           (existingCandidates unroutedDb ''alice'' (uniqueFlights [unroutedFlight])))
        (existingCandidates unroutedDb ''alice'' (uniqueFlights [unroutedFlight]))
        (uniqueFlights [unroutedFlight]) [] []
      = ([unroutedFlight], [])"
proof -
  have a: "signature (toCreateFlight (hd (flights unroutedDb))) = signature unroutedFlight"
    by code_simp
  have b: "holdsSeat ''alice'' (hd (flights unroutedDb))" by code_simp
  have c: "map_of (existingBySig (existingCandidates unroutedDb ''alice'' (uniqueFlights [unroutedFlight])))
        (signature unroutedFlight) = None"
    by code_simp
  have d: "partitionFlights
        (existingBySig (existingCandidates unroutedDb ''alice'' (uniqueFlights [unroutedFlight])))
        (userSeatByFlight unroutedDb ''alice''
           (existingCandidates unroutedDb ''alice'' (uniqueFlights [unroutedFlight])))
        (existingCandidates unroutedDb ''alice'' (uniqueFlights [unroutedFlight]))
        (uniqueFlights [unroutedFlight]) [] []
      = ([unroutedFlight], [])"
    by code_simp
  from a b c d show ?thesis by (intro conjI)
qed

end
